theory Spec2Isabelle
  imports Complex_Main "HOL-Library.Word" "HOL-Library.AList"
begin

section \<open>Python values\<close>

text \<open>
  A Python \<open>str\<close> is a sequence of Unicode code points and a \<open>bytes\<close> object a
  sequence of octets. The two are kept apart, as Python 3 keeps them apart: code points
  are natural numbers, octets are 8-bit words. \<open>ustr\<close> and \<open>bstr\<close> write the ASCII
  literals of the source (\<open>'@'\<close> and \<open>b'@'\<close>).
\<close>

type_synonym pystr = "nat list"
type_synonym pybytes = "8 word list"

definition ustr :: "string \<Rightarrow> pystr" where
  "ustr s = map of_char s"

definition bstr :: "string \<Rightarrow> pybytes" where
  "bstr s = map of_char s"

definition uchr :: "char \<Rightarrow> nat" where
  "uchr c = of_char c"

definition bchr :: "char \<Rightarrow> 8 word" where
  "bchr c = of_char c"

text \<open>
  The exceptions the module can raise. \<open>UnicodeEncodeError\<close> and
  \<open>UnicodeDecodeError\<close> are subclasses of \<open>ValueError\<close> in Python; the module
  catches only \<open>KeyError\<close>, \<open>TypeError\<close> and \<open>StopIteration\<close>, so they are kept as
  constructors of their own.
\<close>

datatype error =
  TypeError | ValueError | KeyError | AttributeError
  | UnicodeEncodeError | UnicodeDecodeError

text \<open>
  The values a caller can pass as a tag value or assign to a field: the four kinds the
  module tests for, and \<open>None\<close> standing for a value of any other type. The type
  \<open>'f\<close> is Python's \<open>float\<close>.
\<close>

datatype 'f pyval = PInt int | PFloat 'f | PStr pystr | PBytes pybytes | PNone

section \<open>Records\<close>

text \<open>
  \<open>Record._data\<close> holds the four lines of one entry; the reader builds it from the
  4-tuples of \<open>record_grouper\<close>, whose elements are lines of a file (\<open>str\<close> in text
  mode, \<open>bytes\<close> in binary mode), and the setters admit nothing but \<open>str\<close> and
  \<open>bytes\<close>. A field is therefore text or bytes, whatever the class of its record.
\<close>

datatype field = Text pystr | Bytes pybytes

datatype variant = StrRecord | BytesRecord

record fastq_record =
  kind :: variant
  name :: field
  sequence :: field
  name2 :: field
  quality :: field

definition Record :: "variant \<Rightarrow> field \<times> field \<times> field \<times> field \<Rightarrow> fastq_record" where
  "Record cls t =
     (case t of (l0, l1, l2, l3) \<Rightarrow>
        \<lparr>kind = cls, name = l0, sequence = l1, name2 = l2, quality = l3\<rparr>)"

text \<open>\<open>isinstance(value, (bytes, str))\<close>, with the field the value becomes.\<close>

fun as_field :: "'f pyval \<Rightarrow> field option" where
  "as_field (PStr s) = Some (Text s)"
| "as_field (PBytes b) = Some (Bytes b)"
| "as_field (PInt i) = None"
| "as_field (PFloat x) = None"
| "as_field PNone = None"

text \<open>The four property setters of \<open>Record\<close>, shared by both classes.\<close>

definition set_name :: "fastq_record \<Rightarrow> 'f pyval \<Rightarrow> error + fastq_record" where
  "set_name r v =
     (case as_field v of None \<Rightarrow> Inl TypeError | Some f \<Rightarrow> Inr (r\<lparr>name := f\<rparr>))"

definition set_sequence :: "fastq_record \<Rightarrow> 'f pyval \<Rightarrow> error + fastq_record" where
  "set_sequence r v =
     (case as_field v of None \<Rightarrow> Inl TypeError | Some f \<Rightarrow> Inr (r\<lparr>sequence := f\<rparr>))"

definition set_name2 :: "fastq_record \<Rightarrow> 'f pyval \<Rightarrow> error + fastq_record" where
  "set_name2 r v =
     (case as_field v of None \<Rightarrow> Inl TypeError | Some f \<Rightarrow> Inr (r\<lparr>name2 := f\<rparr>))"

definition set_quality :: "fastq_record \<Rightarrow> 'f pyval \<Rightarrow> error + fastq_record" where
  "set_quality r v =
     (case as_field v of None \<Rightarrow> Inl TypeError | Some f \<Rightarrow> Inr (r\<lparr>quality := f\<rparr>))"



section \<open>The reader\<close>

text \<open>
  \<open>record_grouper\<close> zips one iterator with itself four times: each tuple takes the
  next four lines, and \<open>zip\<close> stops, dropping what it has already drawn, as soon as
  the iterator is exhausted in the middle of a tuple. The line source is the finite
  list of lines that the underlying reader yields.
\<close>

fun record_grouper :: "'a list \<Rightarrow> ('a \<times> 'a \<times> 'a \<times> 'a) list" where
  "record_grouper (l0 # l1 # l2 # l3 # ls) = (l0, l1, l2, l3) # record_grouper ls"
| "record_grouper ls = []"

text \<open>\<open>StrRecord if self._mode == 'r' else BytesRecord\<close>.\<close>

definition record_type :: "pystr \<Rightarrow> variant" where
  "record_type mode = (if mode = ustr ''r'' then StrRecord else BytesRecord)"

text \<open>
  Modelled from the spec: the constructor of \<open>reader.Reader\<close>, the base class that
  sets \<open>self._mode\<close>, is not among the sources. The spec gives the reader two input
  modes, the text mode (the default, \<open>'r'\<close>) and the binary mode (\<open>'rb'\<close>), chosen
  by the caller when the reader is built; these are the modes an instance can have.
\<close>

definition admitted_mode :: "pystr \<Rightarrow> bool" where
  "admitted_mode mode = (mode = ustr ''r'' \<or> mode = ustr ''rb'')"

text \<open>\<open>Reader.__iter__\<close>: the records the generator yields, in order.\<close>

definition Reader_iter :: "pystr \<Rightarrow> field list \<Rightarrow> fastq_record list" where
  "Reader_iter mode ls = map (Record (record_type mode)) (record_grouper ls)"

section \<open>Built-in operations on strings and bytes\<close>

text \<open>
  \<open>s.split(sep)\<close> for a separator of one element: the pieces between the
  occurrences of \<open>sep\<close>, always at least one piece. \<open>sep.join(parts)\<close> is its
  inverse on pieces free of the separator.
\<close>

fun split_on :: "'a \<Rightarrow> 'a list \<Rightarrow> 'a list list" where
  "split_on sep [] = [[]]"
| "split_on sep (x # xs) =
     (if x = sep then [] # split_on sep xs
      else (case split_on sep xs of
              [] \<Rightarrow> [[x]]
            | piece # pieces \<Rightarrow> (x # piece) # pieces))"

fun join :: "'a list \<Rightarrow> 'a list list \<Rightarrow> 'a list" where
  "join sep [] = []"
| "join sep [p] = p"
| "join sep (p # q # ps) = p @ sep @ join sep (q # ps)"

text \<open>
  The UTF-8 codec behind \<open>key.encode()\<close>, \<open>bytes(s, 'utf-8')\<close> and \<open>k.decode()\<close>,
  with strict error handling: a surrogate code point cannot be encoded, and a
  sequence that is truncated, overlong, a surrogate or beyond U+10FFFF cannot be
  decoded. \<open>None\<close> is the \<open>UnicodeEncodeError\<close> or \<open>UnicodeDecodeError\<close>.
\<close>

definition utf8_char :: "nat \<Rightarrow> pybytes option" where
  "utf8_char c =
     (if c < 0x80 then Some [of_nat c]
      else if c < 0x800 then Some [of_nat (0xC0 + c div 64), of_nat (0x80 + c mod 64)]
      else if 0xD800 \<le> c \<and> c < 0xE000 then None
      else if c < 0x10000 then
        Some [of_nat (0xE0 + c div 4096), of_nat (0x80 + c div 64 mod 64),
              of_nat (0x80 + c mod 64)]
      else if c < 0x110000 then
        Some [of_nat (0xF0 + c div 262144), of_nat (0x80 + c div 4096 mod 64),
              of_nat (0x80 + c div 64 mod 64), of_nat (0x80 + c mod 64)]
      else None)"

fun utf8_encode :: "pystr \<Rightarrow> pybytes option" where
  "utf8_encode [] = Some []"
| "utf8_encode (c # cs) =
     (case utf8_char c of
        None \<Rightarrow> None
      | Some bs \<Rightarrow> (case utf8_encode cs of None \<Rightarrow> None | Some rest \<Rightarrow> Some (bs @ rest)))"

definition is_cont :: "8 word \<Rightarrow> bool" where
  "is_cont b = (0x80 \<le> unat b \<and> unat b < 0xC0)"

fun utf8_decode :: "pybytes \<Rightarrow> pystr option" where
  "utf8_decode [] = Some []"
| "utf8_decode (b0 # bs) =
     (if unat b0 < 0x80 then map_option ((#) (unat b0)) (utf8_decode bs)
      else if 0xC2 \<le> unat b0 \<and> unat b0 < 0xE0 then
        (case bs of
           b1 # r1 \<Rightarrow>
             if is_cont b1
             then map_option ((#) ((unat b0 - 0xC0) * 64 + (unat b1 - 0x80))) (utf8_decode r1)
             else None
         | _ \<Rightarrow> None)
      else if 0xE0 \<le> unat b0 \<and> unat b0 < 0xF0 then
        (case bs of
           b1 # b2 # r2 \<Rightarrow>
             (let c = (unat b0 - 0xE0) * 4096 + (unat b1 - 0x80) * 64 + (unat b2 - 0x80)
              in if is_cont b1 \<and> is_cont b2 \<and> 0x800 \<le> c \<and> \<not> (0xD800 \<le> c \<and> c < 0xE000)
                 then map_option ((#) c) (utf8_decode r2)
                 else None)
         | _ \<Rightarrow> None)
      else if 0xF0 \<le> unat b0 \<and> unat b0 < 0xF5 then
        (case bs of
           b1 # b2 # b3 # r3 \<Rightarrow>
             (let c = (unat b0 - 0xF0) * 262144 + (unat b1 - 0x80) * 4096
                      + (unat b2 - 0x80) * 64 + (unat b3 - 0x80)
              in if is_cont b1 \<and> is_cont b2 \<and> is_cont b3 \<and> 0x10000 \<le> c \<and> c < 0x110000
                 then map_option ((#) c) (utf8_decode r3)
                 else None)
         | _ \<Rightarrow> None)
      else None)"

text \<open>\<open>str(i)\<close> for an integer: decimal digits, with a minus sign when negative.\<close>

function str_nat :: "nat \<Rightarrow> pystr" where
  "str_nat n = (if n < 10 then [48 + n] else str_nat (n div 10) @ [48 + n mod 10])"
  by pat_completeness auto
termination
  by (relation "measure id") auto

declare str_nat.simps [simp del]

definition str_int :: "int \<Rightarrow> pystr" where
  "str_int i = (if i < 0 then uchr CHR ''-'' # str_nat (nat (- i)) else str_nat (nat i))"

text \<open>
  \<open>int(s)\<close> in base 10, as CPython's \<open>PyLong_FromString\<close> reads a buffer of
  ASCII characters: surrounding ASCII whitespace is skipped, one sign is allowed, and
  the ASCII digits may be grouped by single underscores (Python 3.6 and later).
  \<open>None\<close> is the \<open>ValueError\<close>. CPython's configurable limit on the number of digits
  (Python 3.11 and later) is left out.
\<close>

definition ascii_digit :: "nat \<Rightarrow> bool" where
  "ascii_digit c = (48 \<le> c \<and> c \<le> 57)"

definition ascii_space :: "nat \<Rightarrow> bool" where
  "ascii_space c = ((0x09 \<le> c \<and> c \<le> 0x0D) \<or> c = 0x20)"

fun parse_digits :: "nat \<Rightarrow> nat list \<Rightarrow> nat option" where
  "parse_digits acc [] = Some acc"
| "parse_digits acc [c] = (if ascii_digit c then Some (10 * acc + (c - 48)) else None)"
| "parse_digits acc (c # d # cs) =
     (if ascii_digit c then parse_digits (10 * acc + (c - 48)) (d # cs)
      else if c = 95 \<and> ascii_digit d then parse_digits (10 * acc + (d - 48)) cs
      else None)"

definition parse_unsigned :: "nat list \<Rightarrow> nat option" where
  "parse_unsigned cs =
     (case cs of
        [] \<Rightarrow> None
      | c # rest \<Rightarrow> if ascii_digit c then parse_digits (c - 48) rest else None)"

definition parse_int :: "(nat \<Rightarrow> bool) \<Rightarrow> nat list \<Rightarrow> int option" where
  "parse_int space cs =
     (case rev (dropWhile space (rev (dropWhile space cs))) of
        [] \<Rightarrow> None
      | c # rest \<Rightarrow>
          if c = uchr CHR ''-'' then map_option (\<lambda>n. - int n) (parse_unsigned rest)
          else if c = uchr CHR ''+'' then map_option int (parse_unsigned rest)
          else map_option int (parse_unsigned (c # rest)))"

text \<open>\<open>int(b)\<close> for \<open>bytes\<close>: the octets are the buffer.\<close>

definition int_of_bytes :: "pybytes \<Rightarrow> int option" where
  "int_of_bytes b = parse_int ascii_space (map unat b)"

text \<open>
  What the module takes from the Python runtime without defining it, as parameters of
  the codec.
  \<^item> Python's \<open>float\<close>: the type \<open>'f\<close> of floats and the three conversions the
    module applies to them, \<open>str(x)\<close>, \<open>float(s)\<close> on a \<open>str\<close> and \<open>float(b)\<close>
    on \<open>bytes\<close>, \<open>None\<close> being the \<open>ValueError\<close>.
  \<^item> The two tables of the Unicode character database that \<open>int(s)\<close> consults for
    a \<open>str\<close>, which differ from one Python version to the next:
    \<open>Py_UNICODE_ISSPACE\<close>, and \<open>Py_UNICODE_TODECIMAL\<close>, the value of a decimal
    digit of any script (\<open>None\<close> for a character that is not one).
\<close>

record 'f float_ops =
  str_of_float :: "'f \<Rightarrow> pystr"
  float_of_str :: "pystr \<Rightarrow> 'f option"
  float_of_bytes :: "pybytes \<Rightarrow> 'f option"
  unicode_isspace :: "nat \<Rightarrow> bool"
  unicode_decimal :: "nat \<Rightarrow> nat option"

text \<open>
  \<open>int(s)\<close> for a \<open>str\<close>. CPython first rewrites the text to ASCII
  (\<open>_PyUnicode_TransformDecimalAndSpaceToASCII\<close>): a text that is all ASCII is taken
  as it is; otherwise a character below 127 is kept, a character that is Unicode
  whitespace becomes a space, a decimal digit of any script becomes the ASCII digit of
  its value, and any other character becomes \<open>?\<close>, which nothing reads. The ASCII
  buffer is then read as above. So \<open>U+001C\<close> to \<open>U+001F\<close>, whitespace in the
  table, are not skipped: they are below 127 and kept.
\<close>

definition to_ascii :: "'f float_ops \<Rightarrow> nat \<Rightarrow> nat" where
  "to_ascii fo c =
     (if c < 127 then c
      else if unicode_isspace fo c then uchr CHR '' ''
      else (case unicode_decimal fo c of
              Some d \<Rightarrow> if d < 10 then 48 + d else uchr CHR ''?''
            | None \<Rightarrow> uchr CHR ''?''))"

definition ascii_form :: "'f float_ops \<Rightarrow> pystr \<Rightarrow> nat list" where
  "ascii_form fo s = (if list_all (\<lambda>c. c < 128) s then s else map (to_ascii fo) s)"

definition int_of_str :: "'f float_ops \<Rightarrow> pystr \<Rightarrow> int option" where
  "int_of_str fo s = parse_int ascii_space (ascii_form fo s)"

text \<open>
  \<open>repr(b)\<close> of a \<open>bytes\<close> object, which is what \<open>'%s' % b\<close> formats: the quote is
  \<open>'\<close> unless the bytes hold \<open>'\<close> and no \<open>"\<close>; the quote and the backslash are escaped,
  tab, newline and carriage return have their letters, other bytes outside the printable
  ASCII range are written \<open>\xNN\<close>.
\<close>

definition hex_digit :: "nat \<Rightarrow> nat" where
  "hex_digit n = (if n < 10 then 48 + n else 87 + n)"

definition repr_byte :: "nat \<Rightarrow> 8 word \<Rightarrow> pystr" where
  "repr_byte q b =
     (let c = unat b in
      if c = q \<or> c = 92 then [92, c]
      else if c = 9 then [92, uchr CHR ''t'']
      else if c = 10 then [92, uchr CHR ''n'']
      else if c = 13 then [92, uchr CHR ''r'']
      else if c < 32 \<or> 127 \<le> c then [92, uchr CHR ''x'', hex_digit (c div 16), hex_digit (c mod 16)]
      else [c])"

definition bytes_repr :: "pybytes \<Rightarrow> pystr" where
  "bytes_repr b =
     (let q = (if 39 \<in> set b \<and> 34 \<notin> set b then 34 else 39)
      in [uchr CHR ''b'', q] @ concat (map (repr_byte q) b) @ [q])"

section \<open>The tag codec\<close>

text \<open>\<open>self.name[1:]\<close>.\<close>

fun field_tail :: "field \<Rightarrow> field" where
  "field_tail (Text s) = Text (drop 1 s)"
| "field_tail (Bytes b) = Bytes (drop 1 b)"

text \<open>\<open>'%s' % x\<close> in a \<open>str\<close> template: \<open>str(x)\<close>.\<close>

fun str_format :: "field \<Rightarrow> pystr" where
  "str_format (Text s) = s"
| "str_format (Bytes b) = bytes_repr b"

text \<open>\<open>b'%s' % x\<close> in a \<open>bytes\<close> template: \<open>x\<close> has to be bytes.\<close>

fun bytes_format :: "field \<Rightarrow> error + pybytes" where
  "bytes_format (Bytes b) = Inr b"
| "bytes_format (Text s) = Inl TypeError"

subsection \<open>\<open>StrRecord\<close>\<close>

text \<open>
  The \<open>if\<close>/\<open>elif\<close> chain of \<open>StrRecord._mktag\<close>: the type character and the text of
  the value. The \<open>bytes\<close> branch calls \<open>value.encode()\<close>, which \<open>bytes\<close> does not have.
\<close>

fun StrRecord_tag_parts :: "'f float_ops \<Rightarrow> 'f pyval \<Rightarrow> error + pystr \<times> pystr" where
  "StrRecord_tag_parts fo (PStr s) = Inr (ustr ''Z'', s)"
| "StrRecord_tag_parts fo (PFloat x) = Inr (ustr ''f'', str_of_float fo x)"
| "StrRecord_tag_parts fo (PInt i) = Inr (ustr ''i'', str_int i)"
| "StrRecord_tag_parts fo (PBytes b) = Inl AttributeError"
| "StrRecord_tag_parts fo PNone = Inl TypeError"

definition StrRecord_mktag :: "'f float_ops \<Rightarrow> pystr \<Rightarrow> 'f pyval \<Rightarrow> error + pystr" where
  "StrRecord_mktag fo key v =
     (case StrRecord_tag_parts fo v of
        Inl e \<Rightarrow> Inl e
      | Inr (tag_type, s) \<Rightarrow> Inr (key @ ustr '':'' @ tag_type @ ustr '':'' @ s))"

definition StrRecord_set_tag ::
  "'f float_ops \<Rightarrow> fastq_record \<Rightarrow> pystr \<Rightarrow> 'f pyval \<Rightarrow> error + fastq_record" where
  "StrRecord_set_tag fo r key v =
     (case StrRecord_mktag fo key v of
        Inl e \<Rightarrow> Inl e
      | Inr tag \<Rightarrow>
          set_name r
            (PStr (ustr ''@'' @ tag @ ustr '';'' @ str_format (field_tail (name r))) :: 'f pyval))"

text \<open>The generator \<open>self._mktag(k, v) for k, v in kv_pairs\<close>, stopped by the first error.\<close>

fun StrRecord_mktags :: "'f float_ops \<Rightarrow> (pystr \<times> 'f pyval) list \<Rightarrow> error + pystr list" where
  "StrRecord_mktags fo [] = Inr []"
| "StrRecord_mktags fo ((k, v) # kvs) =
     (case StrRecord_mktag fo k v of
        Inl e \<Rightarrow> Inl e
      | Inr tag \<Rightarrow>
          (case StrRecord_mktags fo kvs of Inl e \<Rightarrow> Inl e | Inr tags \<Rightarrow> Inr (tag # tags)))"

definition StrRecord_set_tags ::
  "'f float_ops \<Rightarrow> fastq_record \<Rightarrow> (pystr \<times> 'f pyval) list \<Rightarrow> error + fastq_record" where
  "StrRecord_set_tags fo r kv_pairs =
     (case StrRecord_mktags fo kv_pairs of
        Inl e \<Rightarrow> Inl e
      | Inr tags \<Rightarrow>
          set_name r
            (PStr (ustr ''@'' @ join (ustr '';'') tags @ ustr '';''
                   @ str_format (field_tail (name r))) :: 'f pyval))"

text \<open>
  \<open>self._str_itype_map[t](v)\<close>: the look-up of the type character raises \<open>KeyError\<close>,
  the conversion \<open>ValueError\<close>.
\<close>

definition StrRecord_convert :: "'f float_ops \<Rightarrow> pystr \<Rightarrow> pystr \<Rightarrow> error + 'f pyval" where
  "StrRecord_convert fo t v =
     (if t = ustr ''i'' then
        (case int_of_str fo v of None \<Rightarrow> Inl ValueError | Some i \<Rightarrow> Inr (PInt i))
      else if t = ustr ''Z'' then Inr (PStr v)
      else if t = ustr ''f'' then
        (case float_of_str fo v of None \<Rightarrow> Inl ValueError | Some x \<Rightarrow> Inr (PFloat x))
      else Inl KeyError)"

text \<open>
  One round of the dictionary comprehension: \<open>k, t, v = segment.split(':')\<close> raises
  \<open>ValueError\<close> unless there are exactly three pieces.
\<close>

definition StrRecord_decode_segment ::
  "'f float_ops \<Rightarrow> pystr \<Rightarrow> error + pystr \<times> 'f pyval" where
  "StrRecord_decode_segment fo seg =
     (case split_on (uchr CHR '':'') seg of
        [k, t, v] \<Rightarrow>
          (case StrRecord_convert fo t v of Inl e \<Rightarrow> Inl e | Inr x \<Rightarrow> Inr (k, x))
      | _ \<Rightarrow> Inl ValueError)"

text \<open>
  A dictionary comprehension over a list: the entries are stored one by one, a later
  entry replacing the value of an earlier one with the same key, and the first error
  ends it. The dictionary is an association list in insertion order.
\<close>

fun dict_comprehension ::
  "('a \<Rightarrow> error + 'k \<times> 'v) \<Rightarrow> ('k \<times> 'v) list \<Rightarrow> 'a list \<Rightarrow> error + ('k \<times> 'v) list" where
  "dict_comprehension f d [] = Inr d"
| "dict_comprehension f d (x # xs) =
     (case f x of
        Inl e \<Rightarrow> Inl e
      | Inr (k, v) \<Rightarrow> dict_comprehension f (AList.update k v d) xs)"

definition StrRecord_get_tags ::
  "'f float_ops \<Rightarrow> fastq_record \<Rightarrow> error + (pystr \<times> 'f pyval) list" where
  "StrRecord_get_tags fo r =
     (case name r of
        Text s \<Rightarrow>
          dict_comprehension (StrRecord_decode_segment fo) []
            (butlast (split_on (uchr CHR '';'') (drop 1 s)))
      | Bytes b \<Rightarrow> Inl TypeError)"

text \<open>
  \<open>get_tag\<close>: the \<open>except KeyError\<close> around \<open>self.get_tags()[key]\<close> catches the
  \<open>KeyError\<close> of a missing key and any \<open>KeyError\<close> that \<open>get_tags\<close> itself raises.
\<close>

definition lookup_tag ::
  "error + (pystr \<times> 'f pyval) list \<Rightarrow> pystr \<Rightarrow> error + 'f pyval" where
  "lookup_tag tags key =
     (case tags of
        Inl e \<Rightarrow> if e = KeyError then Inr PNone else Inl e
      | Inr d \<Rightarrow> (case map_of d key of None \<Rightarrow> Inr PNone | Some v \<Rightarrow> Inr v))"

definition StrRecord_get_tag ::
  "'f float_ops \<Rightarrow> fastq_record \<Rightarrow> pystr \<Rightarrow> error + 'f pyval" where
  "StrRecord_get_tag fo r key = lookup_tag (StrRecord_get_tags fo r) key"

subsection \<open>\<open>BytesRecord\<close>\<close>

definition encode_or_raise :: "pystr \<Rightarrow> error + pybytes" where
  "encode_or_raise s =
     (case utf8_encode s of None \<Rightarrow> Inl UnicodeEncodeError | Some b \<Rightarrow> Inr b)"

fun BytesRecord_tag_parts :: "'f float_ops \<Rightarrow> 'f pyval \<Rightarrow> error + pybytes \<times> pybytes" where
  "BytesRecord_tag_parts fo (PStr s) =
     (case encode_or_raise s of Inl e \<Rightarrow> Inl e | Inr b \<Rightarrow> Inr (bstr ''Z'', b))"
| "BytesRecord_tag_parts fo (PBytes b) = Inr (bstr ''Z'', b)"
| "BytesRecord_tag_parts fo (PFloat x) =
     (case encode_or_raise (str_of_float fo x) of Inl e \<Rightarrow> Inl e | Inr b \<Rightarrow> Inr (bstr ''f'', b))"
| "BytesRecord_tag_parts fo (PInt i) =
     (case encode_or_raise (str_int i) of Inl e \<Rightarrow> Inl e | Inr b \<Rightarrow> Inr (bstr ''i'', b))"
| "BytesRecord_tag_parts fo PNone = Inl TypeError"

definition BytesRecord_mktag :: "'f float_ops \<Rightarrow> pystr \<Rightarrow> 'f pyval \<Rightarrow> error + pybytes" where
  "BytesRecord_mktag fo key v =
     (case BytesRecord_tag_parts fo v of
        Inl e \<Rightarrow> Inl e
      | Inr (tag_type, b) \<Rightarrow>
          (case encode_or_raise key of
             Inl e \<Rightarrow> Inl e
           | Inr k \<Rightarrow> Inr (k @ bstr '':'' @ tag_type @ bstr '':'' @ b)))"

definition BytesRecord_set_tag ::
  "'f float_ops \<Rightarrow> fastq_record \<Rightarrow> pystr \<Rightarrow> 'f pyval \<Rightarrow> error + fastq_record" where
  "BytesRecord_set_tag fo r key v =
     (case BytesRecord_mktag fo key v of
        Inl e \<Rightarrow> Inl e
      | Inr tag \<Rightarrow>
          (case bytes_format (field_tail (name r)) of
             Inl e \<Rightarrow> Inl e
           | Inr rest \<Rightarrow> set_name r (PBytes (bstr ''@'' @ tag @ bstr '';'' @ rest) :: 'f pyval)))"

fun BytesRecord_mktags ::
  "'f float_ops \<Rightarrow> (pystr \<times> 'f pyval) list \<Rightarrow> error + pybytes list" where
  "BytesRecord_mktags fo [] = Inr []"
| "BytesRecord_mktags fo ((k, v) # kvs) =
     (case BytesRecord_mktag fo k v of
        Inl e \<Rightarrow> Inl e
      | Inr tag \<Rightarrow>
          (case BytesRecord_mktags fo kvs of Inl e \<Rightarrow> Inl e | Inr tags \<Rightarrow> Inr (tag # tags)))"

definition BytesRecord_set_tags ::
  "'f float_ops \<Rightarrow> fastq_record \<Rightarrow> (pystr \<times> 'f pyval) list \<Rightarrow> error + fastq_record" where
  "BytesRecord_set_tags fo r kv_pairs =
     (case BytesRecord_mktags fo kv_pairs of
        Inl e \<Rightarrow> Inl e
      | Inr tags \<Rightarrow>
          (case bytes_format (field_tail (name r)) of
             Inl e \<Rightarrow> Inl e
           | Inr rest \<Rightarrow>
               set_name r
                 (PBytes (bstr ''@'' @ join (bstr '';'') tags @ bstr '';'' @ rest) :: 'f pyval)))"

definition BytesRecord_convert ::
  "'f float_ops \<Rightarrow> pybytes \<Rightarrow> pybytes \<Rightarrow> error + 'f pyval" where
  "BytesRecord_convert fo t v =
     (if t = bstr ''i'' then
        (case int_of_bytes v of None \<Rightarrow> Inl ValueError | Some i \<Rightarrow> Inr (PInt i))
      else if t = bstr ''Z'' then Inr (PBytes v)
      else if t = bstr ''f'' then
        (case float_of_bytes fo v of None \<Rightarrow> Inl ValueError | Some x \<Rightarrow> Inr (PFloat x))
      else Inl KeyError)"

text \<open>
  The key of an entry, \<open>k.decode()\<close>, is evaluated before its value (the order of
  Python 3.8 and later).
\<close>

definition BytesRecord_decode_segment ::
  "'f float_ops \<Rightarrow> pybytes \<Rightarrow> error + pystr \<times> 'f pyval" where
  "BytesRecord_decode_segment fo seg =
     (case split_on (bchr CHR '':'') seg of
        [k, t, v] \<Rightarrow>
          (case utf8_decode k of
             None \<Rightarrow> Inl UnicodeDecodeError
           | Some key \<Rightarrow>
               (case BytesRecord_convert fo t v of Inl e \<Rightarrow> Inl e | Inr x \<Rightarrow> Inr (key, x)))
      | _ \<Rightarrow> Inl ValueError)"

definition BytesRecord_get_tags ::
  "'f float_ops \<Rightarrow> fastq_record \<Rightarrow> error + (pystr \<times> 'f pyval) list" where
  "BytesRecord_get_tags fo r =
     (case name r of
        Bytes b \<Rightarrow>
          dict_comprehension (BytesRecord_decode_segment fo) []
            (butlast (split_on (bchr CHR '';'') (drop 1 b)))
      | Text s \<Rightarrow> Inl TypeError)"

definition BytesRecord_get_tag ::
  "'f float_ops \<Rightarrow> fastq_record \<Rightarrow> pystr \<Rightarrow> error + 'f pyval" where
  "BytesRecord_get_tag fo r key = lookup_tag (BytesRecord_get_tags fo r) key"

subsection \<open>Method dispatch on the class of the record\<close>

definition set_tag ::
  "'f float_ops \<Rightarrow> fastq_record \<Rightarrow> pystr \<Rightarrow> 'f pyval \<Rightarrow> error + fastq_record" where
  "set_tag fo r key v =
     (case kind r of
        StrRecord \<Rightarrow> StrRecord_set_tag fo r key v
      | BytesRecord \<Rightarrow> BytesRecord_set_tag fo r key v)"

definition set_tags ::
  "'f float_ops \<Rightarrow> fastq_record \<Rightarrow> (pystr \<times> 'f pyval) list \<Rightarrow> error + fastq_record" where
  "set_tags fo r kv_pairs =
     (case kind r of
        StrRecord \<Rightarrow> StrRecord_set_tags fo r kv_pairs
      | BytesRecord \<Rightarrow> BytesRecord_set_tags fo r kv_pairs)"

definition get_tags ::
  "'f float_ops \<Rightarrow> fastq_record \<Rightarrow> error + (pystr \<times> 'f pyval) list" where
  "get_tags fo r =
     (case kind r of
        StrRecord \<Rightarrow> StrRecord_get_tags fo r
      | BytesRecord \<Rightarrow> BytesRecord_get_tags fo r)"

definition get_tag :: "'f float_ops \<Rightarrow> fastq_record \<Rightarrow> pystr \<Rightarrow> error + 'f pyval" where
  "get_tag fo r key =
     (case kind r of
        StrRecord \<Rightarrow> StrRecord_get_tag fo r key
      | BytesRecord \<Rightarrow> BytesRecord_get_tag fo r key)"

section \<open>Average quality\<close>







section \<open>Sequence length estimation\<close>







section \<open>Tag extraction\<close>









section \<open>Concrete instances\<close>

text \<open>
  The two Unicode tables as Unicode 15 has them. The decimal digits come in runs of
  ten, from the zero of each script, and in the fifty mathematical digits from
  \<open>U+1D7CE\<close>.
\<close>

definition unicode15_space :: "nat \<Rightarrow> bool" where
  "unicode15_space c =
     ((0x09 \<le> c \<and> c \<le> 0x0D) \<or> (0x1C \<le> c \<and> c \<le> 0x20) \<or> c = 0x85 \<or> c = 0xA0
      \<or> c = 0x1680 \<or> (0x2000 \<le> c \<and> c \<le> 0x200A) \<or> c = 0x2028 \<or> c = 0x2029
      \<or> c = 0x202F \<or> c = 0x205F \<or> c = 0x3000)"

definition unicode15_zeros :: "nat list" where
  "unicode15_zeros =
     [0x0030, 0x0660, 0x06F0, 0x07C0, 0x0966, 0x09E6, 0x0A66, 0x0AE6, 0x0B66, 0x0BE6,
      0x0C66, 0x0CE6, 0x0D66, 0x0DE6, 0x0E50, 0x0ED0, 0x0F20, 0x1040, 0x1090, 0x17E0,
      0x1810, 0x1946, 0x19D0, 0x1A80, 0x1A90, 0x1B50, 0x1BB0, 0x1C40, 0x1C50, 0xA620,
      0xA8D0, 0xA900, 0xA9D0, 0xA9F0, 0xAA50, 0xABF0, 0xFF10, 0x104A0, 0x10D30, 0x11066,
      0x110F0, 0x11136, 0x111D0, 0x112F0, 0x11450, 0x114D0, 0x11650, 0x116C0, 0x11730,
      0x118E0, 0x11950, 0x11C50, 0x11D50, 0x11DA0, 0x11F50, 0x16A60, 0x16AC0, 0x16B50,
      0x1E140, 0x1E2F0, 0x1E4F0, 0x1E950, 0x1FBF0]"

definition unicode15_decimal :: "nat \<Rightarrow> nat option" where
  "unicode15_decimal c =
     (if 0x1D7CE \<le> c \<and> c \<le> 0x1D7FF then Some ((c - 0x1D7CE) mod 10)
      else (case filter (\<lambda>z. z \<le> c \<and> c < z + 10) unicode15_zeros of
              [] \<Rightarrow> None
            | z # zs \<Rightarrow> Some (c - z)))"

text \<open>
  An instance of the parameters for the concrete runs below: a single float, \<open>0.0\<close>,
  and the Unicode 15 tables. No run below holds a character beyond ASCII.
\<close>

definition zero_float_ops :: "unit float_ops" where
  "zero_float_ops =
     \<lparr>str_of_float = (\<lambda>x. ustr ''0.0''),
      float_of_str = (\<lambda>s. if s = ustr ''0.0'' then Some () else None),
      float_of_bytes = (\<lambda>b. if b = bstr ''0.0'' then Some () else None),
      unicode_isspace = unicode15_space,
      unicode_decimal = unicode15_decimal\<rparr>"

text \<open>A textual-variant and a binary-variant record with the given name.\<close>

definition str_record :: "string \<Rightarrow> fastq_record" where
  "str_record n =
     \<lparr>kind = StrRecord, name = Text (ustr n), sequence = Text (ustr ''ACGT''),
      name2 = Text (ustr ''+''), quality = Text (ustr ''IIII'')\<rparr>"

definition bytes_record :: "string \<Rightarrow> fastq_record" where
  "bytes_record n =
     \<lparr>kind = BytesRecord, name = Bytes (bstr n), sequence = Bytes (bstr ''ACGT''),
      name2 = Bytes (bstr ''+''), quality = Bytes (bstr ''IIII'')\<rparr>"




section \<open>Grouping of lines\<close>

lemma record_grouper_length:
  "length (record_grouper ls) = length ls div 4"
  by (induction ls rule: record_grouper.induct) simp_all

lemma record_grouper_nth:
  "j < length ls div 4 \<Longrightarrow>
   record_grouper ls ! j = (ls ! (4 * j), ls ! (4 * j + 1), ls ! (4 * j + 2), ls ! (4 * j + 3))"
proof (induction ls arbitrary: j rule: record_grouper.induct)
  case (1 l0 l1 l2 l3 ls)
  show ?case
  proof (cases j)
    case 0
    then show ?thesis by simp
  next
    case (Suc i)
    with "1.prems" have "i < length ls div 4" by simp
    from "1.IH" [OF this] Suc show ?thesis by (simp add: add.commute)
  qed
qed simp_all

lemma Reader_iter_nth_fields:
  assumes "j < length ls div 4"
  shows "name (Reader_iter mode ls ! j) = ls ! (4 * j)"
    and "sequence (Reader_iter mode ls ! j) = ls ! (4 * j + 1)"
    and "name2 (Reader_iter mode ls ! j) = ls ! (4 * j + 2)"
    and "quality (Reader_iter mode ls ! j) = ls ! (4 * j + 3)"
    and "kind (Reader_iter mode ls ! j) = record_type mode"
  using assms
  by (simp_all add: Reader_iter_def record_grouper_length record_grouper_nth Record_def)

text \<open>
  C2. A source of \<open>4 * N + r\<close> lines with \<open>r < 4\<close> (so \<open>r = 0\<close> is the source of
  exactly \<open>4 * N\<close> lines) yields exactly \<open>N\<close> records, in source order: the name,
  sequence, second name and quality of record \<open>j\<close> are the lines \<open>4j\<close>, \<open>4j+1\<close>,
  \<open>4j+2\<close> and \<open>4j+3\<close> of the source. The \<open>r\<close> trailing lines yield nothing, and
  the iteration has no error to raise.
\<close>

theorem Reader_iter_groups_of_four:
  assumes "length ls = 4 * N + r" and "r < 4"
  shows "length (Reader_iter mode ls) = N \<and>
         (\<forall>j<N. name (Reader_iter mode ls ! j) = ls ! (4 * j) \<and>
                 sequence (Reader_iter mode ls ! j) = ls ! (4 * j + 1) \<and>
                 name2 (Reader_iter mode ls ! j) = ls ! (4 * j + 2) \<and>
                 quality (Reader_iter mode ls ! j) = ls ! (4 * j + 3))"
proof -
  from assms have N: "length ls div 4 = N" by simp
  have len: "length (Reader_iter mode ls) = N"
    by (simp add: Reader_iter_def record_grouper_length N)
  from N Reader_iter_nth_fields [of _ ls mode] len show ?thesis by simp
qed

theorem Reader_iter_groups_of_four_witness:
  "length (Reader_iter (ustr ''r'')
      (map Text [ustr ''a'', ustr ''b'', ustr ''c'', ustr ''d'', ustr ''e'', ustr ''f''])) = 1 \<and>
   name (Reader_iter (ustr ''r'')
      (map Text [ustr ''a'', ustr ''b'', ustr ''c'', ustr ''d'', ustr ''e'', ustr ''f'']) ! 0)
     = Text (ustr ''a'') \<and>
   sequence (Reader_iter (ustr ''r'')
      (map Text [ustr ''a'', ustr ''b'', ustr ''c'', ustr ''d'', ustr ''e'', ustr ''f'']) ! 0)
     = Text (ustr ''b'') \<and>
   name2 (Reader_iter (ustr ''r'')
      (map Text [ustr ''a'', ustr ''b'', ustr ''c'', ustr ''d'', ustr ''e'', ustr ''f'']) ! 0)
     = Text (ustr ''c'') \<and>
   quality (Reader_iter (ustr ''r'')
      (map Text [ustr ''a'', ustr ''b'', ustr ''c'', ustr ''d'', ustr ''e'', ustr ''f'']) ! 0)
     = Text (ustr ''d'')"
  using Reader_iter_groups_of_four
    [of "map Text [ustr ''a'', ustr ''b'', ustr ''c'', ustr ''d'', ustr ''e'', ustr ''f'']" 1 2
        "ustr ''r''"]
  by simp

section \<open>Representation selection\<close>

lemma Reader_iter_kind:
  "r \<in> set (Reader_iter mode ls) \<Longrightarrow> kind r = record_type mode"
  by (auto simp: Reader_iter_def Record_def split: prod.splits)

text \<open>
  C3. For every reader, built with a mode its constructor admits: if the mode is the
  binary mode \<open>'rb'\<close>, every record yielded by iteration is a binary-variant record,
  and for any other mode every record yielded is a textual-variant record.
\<close>

theorem Reader_iter_record_kind:
  assumes "admitted_mode mode"
  shows "(mode = ustr ''rb'' \<longrightarrow> (\<forall>r \<in> set (Reader_iter mode ls). kind r = BytesRecord)) \<and>
         (mode \<noteq> ustr ''rb'' \<longrightarrow> (\<forall>r \<in> set (Reader_iter mode ls). kind r = StrRecord))"
proof -
  have "ustr ''rb'' \<noteq> ustr ''r''" by (simp add: ustr_def)
  with assms show ?thesis
    by (auto dest!: Reader_iter_kind simp: record_type_def admitted_mode_def)
qed

theorem Reader_iter_record_kind_witness:
  "admitted_mode (ustr ''rb'') \<and> admitted_mode (ustr ''r'') \<and>
   kind (Reader_iter (ustr ''rb'')
      [Bytes (bstr ''@n''), Bytes (bstr ''ACGT''), Bytes (bstr ''+''), Bytes (bstr ''IIII'')] ! 0)
     = BytesRecord \<and>
   kind (Reader_iter (ustr ''r'')
      [Text (ustr ''@n''), Text (ustr ''ACGT''), Text (ustr ''+''), Text (ustr ''IIII'')] ! 0)
     = StrRecord"
proof -
  let ?b = "[Bytes (bstr ''@n''), Bytes (bstr ''ACGT''), Bytes (bstr ''+''), Bytes (bstr ''IIII'')]"
  let ?t = "[Text (ustr ''@n''), Text (ustr ''ACGT''), Text (ustr ''+''), Text (ustr ''IIII'')]"
  have ab: "admitted_mode (ustr ''rb'')" and ar: "admitted_mode (ustr ''r'')"
    by (simp_all add: admitted_mode_def)
  have ne: "ustr ''r'' \<noteq> ustr ''rb''" by (simp add: ustr_def)
  have b: "Reader_iter (ustr ''rb'') ?b ! 0 \<in> set (Reader_iter (ustr ''rb'') ?b)"
    by (simp add: Reader_iter_def)
  have t: "Reader_iter (ustr ''r'') ?t ! 0 \<in> set (Reader_iter (ustr ''r'') ?t)"
    by (simp add: Reader_iter_def)
  from Reader_iter_record_kind [OF ab, of ?b] b
       Reader_iter_record_kind [OF ar, of ?t] t ne ab ar
  show ?thesis by blast
qed

section \<open>Field assignment\<close>

text \<open>
  C5, as stated: assigning a value that is not of the record's own kind fails with a type
  error. It does not: the setters are those of the base class and test
  \<open>isinstance(value, (bytes, str))\<close>, so a textual-variant record takes a \<open>bytes\<close>
  value and a binary-variant record a \<open>str\<close> value.
\<close>

theorem setter_cross_kind_counterexample:
  "set_name
     \<lparr>kind = StrRecord, name = Text (ustr ''@n''), sequence = Text (ustr ''ACGT''),
      name2 = Text (ustr ''+''), quality = Text (ustr ''IIII'')\<rparr>
     (PBytes (bstr ''@m'') :: unit pyval)
   = Inr \<lparr>kind = StrRecord, name = Bytes (bstr ''@m''), sequence = Text (ustr ''ACGT''),
      name2 = Text (ustr ''+''), quality = Text (ustr ''IIII'')\<rparr> \<and>
   set_quality
     \<lparr>kind = BytesRecord, name = Bytes (bstr ''@n''), sequence = Bytes (bstr ''ACGT''),
      name2 = Bytes (bstr ''+''), quality = Bytes (bstr ''IIII'')\<rparr>
     (PStr (ustr ''JJJJ'') :: unit pyval)
   = Inr \<lparr>kind = BytesRecord, name = Bytes (bstr ''@n''), sequence = Bytes (bstr ''ACGT''),
      name2 = Bytes (bstr ''+''), quality = Text (ustr ''JJJJ'')\<rparr>"
  by (simp add: set_name_def set_quality_def)

text \<open>
  C5, amended: for every record of either variant and each of the four fields, assigning
  a value that is neither text nor bytes fails with a type error; a text value and a
  bytes value are both stored, whatever the variant of the record, and the other three
  fields and the class are unchanged.
\<close>

theorem setter_accepts_str_or_bytes:
  "(as_field v = None \<longrightarrow>
      set_name r v = Inl TypeError \<and> set_sequence r v = Inl TypeError \<and>
      set_name2 r v = Inl TypeError \<and> set_quality r v = Inl TypeError) \<and>
   (as_field v = Some f \<longrightarrow>
      set_name r v = Inr (r\<lparr>name := f\<rparr>) \<and> set_sequence r v = Inr (r\<lparr>sequence := f\<rparr>) \<and>
      set_name2 r v = Inr (r\<lparr>name2 := f\<rparr>) \<and> set_quality r v = Inr (r\<lparr>quality := f\<rparr>)) \<and>
   (as_field v = None) = (\<forall>s b. v \<noteq> PStr s \<and> v \<noteq> PBytes b)"
  by (cases v) (simp_all add: set_name_def set_sequence_def set_name2_def set_quality_def)

theorem setter_accepts_str_or_bytes_witness:
  "set_sequence
     \<lparr>kind = StrRecord, name = Text (ustr ''@n''), sequence = Text (ustr ''ACGT''),
      name2 = Text (ustr ''+''), quality = Text (ustr ''IIII'')\<rparr>
     (PInt 7 :: unit pyval) = Inl TypeError \<and>
   set_sequence
     \<lparr>kind = StrRecord, name = Text (ustr ''@n''), sequence = Text (ustr ''ACGT''),
      name2 = Text (ustr ''+''), quality = Text (ustr ''IIII'')\<rparr>
     (PStr (ustr ''GG'') :: unit pyval)
   = Inr \<lparr>kind = StrRecord, name = Text (ustr ''@n''), sequence = Text (ustr ''GG''),
      name2 = Text (ustr ''+''), quality = Text (ustr ''IIII'')\<rparr>"
proof -
  let ?r = "\<lparr>kind = StrRecord, name = Text (ustr ''@n''), sequence = Text (ustr ''ACGT''),
      name2 = Text (ustr ''+''), quality = Text (ustr ''IIII'')\<rparr>"
  have n: "as_field (PInt 7 :: unit pyval) = None" by simp
  have s: "as_field (PStr (ustr ''GG'') :: unit pyval) = Some (Text (ustr ''GG''))" by simp
  from setter_accepts_str_or_bytes [of "PInt 7 :: unit pyval" ?r] n
       setter_accepts_str_or_bytes [of "PStr (ustr ''GG'') :: unit pyval" ?r "Text (ustr ''GG'')"] s
  show ?thesis by simp
qed

section \<open>Tag extraction\<close>







section \<open>What \<open>set_tag\<close> and \<open>set_tags\<close> leave alone\<close>

lemma set_name_frame:
  "set_name r v = Inr r' \<Longrightarrow>
   kind r' = kind r \<and> sequence r' = sequence r \<and> name2 r' = name2 r \<and> quality r' = quality r"
  by (auto simp: set_name_def split: option.splits)

lemma set_tag_frame:
  "set_tag fo r k v = Inr r' \<Longrightarrow>
   kind r' = kind r \<and> sequence r' = sequence r \<and> name2 r' = name2 r \<and> quality r' = quality r"
  by (auto simp: set_tag_def StrRecord_set_tag_def BytesRecord_set_tag_def
      split: variant.splits sum.splits dest!: set_name_frame)

lemma set_tags_frame:
  "set_tags fo r kvs = Inr r' \<Longrightarrow>
   kind r' = kind r \<and> sequence r' = sequence r \<and> name2 r' = name2 r \<and> quality r' = quality r"
  by (auto simp: set_tags_def StrRecord_set_tags_def BytesRecord_set_tags_def
      split: variant.splits sum.splits dest!: set_name_frame)

text \<open>
  C9. For every record of either variant, every key and every value, a call of
  \<open>set_tag\<close> or \<open>set_tags\<close> that returns leaves the record with the same sequence,
  second name and quality (and of the same class): only the name can differ. A call
  that raises assigns nothing.
\<close>

theorem set_tag_changes_only_name:
  "(set_tag fo r key v = Inr r' \<longrightarrow>
      sequence r' = sequence r \<and> name2 r' = name2 r \<and> quality r' = quality r \<and>
      kind r' = kind r) \<and>
   (set_tags fo r kv_pairs = Inr r'' \<longrightarrow>
      sequence r'' = sequence r \<and> name2 r'' = name2 r \<and> quality r'' = quality r \<and>
      kind r'' = kind r)"
  using set_tag_frame [of fo r key v r'] set_tags_frame [of fo r kv_pairs r''] by blast

theorem set_tag_changes_only_name_witness:
  "set_tag zero_float_ops (str_record ''@orig'') (ustr ''k'') (PInt 2)
     = Inr (str_record ''@k:i:2;orig'') \<and>
   set_tags zero_float_ops (bytes_record ''@orig'')
       [(ustr ''k'', PInt 2), (ustr ''b'', PStr (ustr ''xy''))]
     = Inr (bytes_record ''@k:i:2;b:Z:xy;orig'') \<and>
   sequence (str_record ''@k:i:2;orig'') = sequence (str_record ''@orig'') \<and>
   name2 (str_record ''@k:i:2;orig'') = name2 (str_record ''@orig'') \<and>
   quality (str_record ''@k:i:2;orig'') = quality (str_record ''@orig'') \<and>
   sequence (bytes_record ''@k:i:2;b:Z:xy;orig'') = sequence (bytes_record ''@orig'') \<and>
   name2 (bytes_record ''@k:i:2;b:Z:xy;orig'') = name2 (bytes_record ''@orig'') \<and>
   quality (bytes_record ''@k:i:2;b:Z:xy;orig'') = quality (bytes_record ''@orig'')"
proof -
  have a: "set_tag zero_float_ops (str_record ''@orig'') (ustr ''k'') (PInt 2)
     = Inr (str_record ''@k:i:2;orig'')"
    by code_simp
  have b: "set_tags zero_float_ops (bytes_record ''@orig'')
       [(ustr ''k'', PInt 2), (ustr ''b'', PStr (ustr ''xy''))]
     = Inr (bytes_record ''@k:i:2;b:Z:xy;orig'')"
    by code_simp
  from a b
    set_tag_changes_only_name [of zero_float_ops "str_record ''@orig''" "ustr ''k''" "PInt 2"
      "str_record ''@k:i:2;orig''" "[]" "str_record ''@orig''"]
    set_tag_changes_only_name [of zero_float_ops "bytes_record ''@orig''" "ustr ''k''" "PNone"
      "bytes_record ''@orig''" "[(ustr ''k'', PInt 2), (ustr ''b'', PStr (ustr ''xy''))]"
      "bytes_record ''@k:i:2;b:Z:xy;orig''"]
  show ?thesis by simp
qed

section \<open>Malformed tags\<close>

lemma dict_comprehension_fails:
  "x \<in> set xs \<Longrightarrow> f x = Inl e \<Longrightarrow> \<exists>e'. dict_comprehension f d xs = Inl e'"
  by (induction xs arbitrary: d) (auto split: sum.splits prod.splits)

lemma StrRecord_decode_segment_malformed:
  "length (split_on (uchr CHR '':'') seg) \<noteq> 3 \<Longrightarrow>
   StrRecord_decode_segment fo seg = Inl ValueError"
  by (auto simp: StrRecord_decode_segment_def split: list.splits)

lemma StrRecord_decode_segment_unknown_type:
  "split_on (uchr CHR '':'') seg = [k, t, v] \<Longrightarrow> t \<notin> {ustr ''i'', ustr ''Z'', ustr ''f''} \<Longrightarrow>
   StrRecord_decode_segment fo seg = Inl KeyError"
  by (auto simp: StrRecord_decode_segment_def StrRecord_convert_def)

text \<open>
  \<open>get_tags\<close> does raise on a malformed segment, whichever it is: a textual-variant
  record whose name holds a tag segment without exactly two \<open>:\<close>, or with a type
  character other than \<open>i\<close>, \<open>Z\<close>, \<open>f\<close>, has no mapping.
\<close>

lemma get_tags_malformed_fails:
  assumes "name r = Text s" "kind r = StrRecord"
    and "seg \<in> set (butlast (split_on (uchr CHR '';'') (drop 1 s)))"
    and "length (split_on (uchr CHR '':'') seg) \<noteq> 3 \<or>
         (\<exists>k t v. split_on (uchr CHR '':'') seg = [k, t, v] \<and>
                  t \<notin> {ustr ''i'', ustr ''Z'', ustr ''f''})"
  shows "\<exists>e. get_tags fo r = Inl e"
proof -
  from assms(4) obtain e where "StrRecord_decode_segment fo seg = Inl e"
    using StrRecord_decode_segment_malformed StrRecord_decode_segment_unknown_type by blast
  from dict_comprehension_fails
         [where f = "StrRecord_decode_segment fo" and d = "[]", OF assms(3) this] assms(1,2)
  show ?thesis by (simp add: get_tags_def StrRecord_get_tags_def)
qed

text \<open>
  C4. The claim holds for \<open>get_tags\<close>, and for \<open>get_tag\<close> on a segment without two
  \<open>:\<close> (the name \<open>@bad_no_colon;orig\<close> raises \<open>ValueError\<close> in both). It fails for
  \<open>get_tag\<close> on an unknown type character: the look-up of the character in the type
  table raises \<open>KeyError\<close>, which the \<open>except KeyError\<close> of \<open>get_tag\<close>, written for a
  missing key, catches. With the name \<open>@k:x:1;orig\<close>, \<open>get_tags\<close> raises and
  \<open>get_tag('k')\<close> returns \<open>None\<close>, in both variants.
\<close>

theorem get_tag_swallows_unknown_type:
  "get_tags zero_float_ops (str_record ''@k:x:1;orig'') = Inl KeyError \<and>
   get_tag zero_float_ops (str_record ''@k:x:1;orig'') (ustr ''k'') = Inr PNone \<and>
   get_tags zero_float_ops (bytes_record ''@k:x:1;orig'') = Inl KeyError \<and>
   get_tag zero_float_ops (bytes_record ''@k:x:1;orig'') (ustr ''k'') = Inr PNone \<and>
   get_tags zero_float_ops (str_record ''@bad_no_colon;orig'') = Inl ValueError \<and>
   get_tag zero_float_ops (str_record ''@bad_no_colon;orig'') (ustr ''k'') = Inl ValueError"
  by code_simp

section \<open>The first character of the name\<close>

text \<open>
  C10, as stated, has \<open>set_tag\<close> fail on an empty name. It does not: \<open>name[1:]\<close> of an
  empty name is empty, and the call returns with the name \<open>@k:i:2;\<close>.
\<close>

theorem set_tag_empty_name_counterexample:
  "set_tag zero_float_ops (str_record '''') (ustr ''k'') (PInt 2)
     = Inr (str_record ''@k:i:2;'') \<and>
   set_tag zero_float_ops (bytes_record '''') (ustr ''k'') (PInt 2)
     = Inr (bytes_record ''@k:i:2;'')"
  by code_simp

text \<open>
  C10, amended. For every record whose name is of the kind of its variant and every tag
  that \<open>_mktag\<close> builds, \<open>set_tag\<close> returns, and the new name is \<open>@\<close>, the tag, \<open>;\<close>
  and the old name without its first character, whatever that character was; so is it
  for \<open>set_tags\<close> with the tags joined by \<open>;\<close>. The first character of a name that
  does not begin with \<open>@\<close> is lost without an error, and on an empty name nothing is
  lost and the call does not fail. \<open>get_tags\<close> reads the name without its first
  character: two records of one class whose names agree after the first character have
  the same tags, or fail alike.
\<close>

theorem set_tag_replaces_first_character:
  "(kind r = StrRecord \<and> name r = Text s \<and> StrRecord_mktag fo key v = Inr tag \<longrightarrow>
      set_tag fo r key v = Inr (r\<lparr>name := Text (ustr ''@'' @ tag @ ustr '';'' @ drop 1 s)\<rparr>)) \<and>
   (kind r = StrRecord \<and> name r = Text s \<and> StrRecord_mktags fo kv_pairs = Inr tags \<longrightarrow>
      set_tags fo r kv_pairs =
        Inr (r\<lparr>name := Text (ustr ''@'' @ join (ustr '';'') tags @ ustr '';'' @ drop 1 s)\<rparr>)) \<and>
   (kind r = BytesRecord \<and> name r = Bytes b \<and> BytesRecord_mktag fo key v = Inr btag \<longrightarrow>
      set_tag fo r key v = Inr (r\<lparr>name := Bytes (bstr ''@'' @ btag @ bstr '';'' @ drop 1 b)\<rparr>)) \<and>
   (kind r = BytesRecord \<and> name r = Bytes b \<and> BytesRecord_mktags fo kv_pairs = Inr btags \<longrightarrow>
      set_tags fo r kv_pairs =
        Inr (r\<lparr>name := Bytes (bstr ''@'' @ join (bstr '';'') btags @ bstr '';'' @ drop 1 b)\<rparr>)) \<and>
   (kind r2 = kind r \<and> field_tail (name r2) = field_tail (name r) \<longrightarrow>
      get_tags fo r2 = get_tags fo r)"
proof -
  have g: "get_tags fo r2 = get_tags fo r"
    if "kind r2 = kind r" "field_tail (name r2) = field_tail (name r)"
    using that
    by (cases "name r"; cases "name r2")
       (auto simp: get_tags_def StrRecord_get_tags_def BytesRecord_get_tags_def
             split: variant.splits)
  show ?thesis
    using g
    by (simp add: set_tag_def set_tags_def StrRecord_set_tag_def StrRecord_set_tags_def
        BytesRecord_set_tag_def BytesRecord_set_tags_def set_name_def)
qed

theorem set_tag_replaces_first_character_witness:
  "set_tag zero_float_ops (str_record ''xorig'') (ustr ''k'') (PInt 2)
     = Inr (str_record ''@k:i:2;orig'') \<and>
   get_tags zero_float_ops (str_record ''xk:i:2;orig'')
     = get_tags zero_float_ops (str_record ''@k:i:2;orig'') \<and>
   get_tags zero_float_ops (str_record ''@k:i:2;orig'') = Inr [(ustr ''k'', PInt 2)]"
proof -
  have k: "kind (str_record ''xorig'') = StrRecord"
    and n: "name (str_record ''xorig'') = Text (ustr ''xorig'')"
    by (simp_all add: str_record_def)
  have m: "StrRecord_mktag zero_float_ops (ustr ''k'') (PInt 2) = Inr (ustr ''k:i:2'')"
    by code_simp
  have e: "(str_record ''xorig'')\<lparr>name := Text (ustr ''@'' @ ustr ''k:i:2'' @ ustr '';''
             @ drop 1 (ustr ''xorig''))\<rparr> = str_record ''@k:i:2;orig''"
    by code_simp
  have k2: "kind (str_record ''xk:i:2;orig'') = kind (str_record ''@k:i:2;orig'')"
    and t2: "field_tail (name (str_record ''xk:i:2;orig''))
               = field_tail (name (str_record ''@k:i:2;orig''))"
    by code_simp+
  have v: "get_tags zero_float_ops (str_record ''@k:i:2;orig'') = Inr [(ustr ''k'', PInt 2)]"
    by code_simp
  from set_tag_replaces_first_character
         [where r = "str_record ''xorig''" and s = "ustr ''xorig''" and fo = zero_float_ops
            and key = "ustr ''k''" and v = "PInt 2" and tag = "ustr ''k:i:2''"
            and ?r2.0 = "str_record ''xorig''"]
       k n m e
  have a: "set_tag zero_float_ops (str_record ''xorig'') (ustr ''k'') (PInt 2)
     = Inr (str_record ''@k:i:2;orig'')"
    by simp
  from set_tag_replaces_first_character
         [where r = "str_record ''@k:i:2;orig''" and fo = zero_float_ops
            and ?r2.0 = "str_record ''xk:i:2;orig''"]
       k2 t2
  have b: "get_tags zero_float_ops (str_record ''xk:i:2;orig'')
     = get_tags zero_float_ops (str_record ''@k:i:2;orig'')"
    by blast
  from a b v show ?thesis by blast
qed

section \<open>Sequence length estimation\<close>












section \<open>Average quality\<close>









section \<open>Splitting and joining\<close>

lemma split_on_nonempty: "split_on sep xs \<noteq> []"
  by (induction xs) (auto split: list.splits)

lemma split_on_no_sep: "sep \<notin> set xs \<Longrightarrow> split_on sep xs = [xs]"
  by (induction xs) auto

lemma split_on_append:
  "sep \<notin> set xs \<Longrightarrow> split_on sep (xs @ sep # ys) = xs # split_on sep ys"
  by (induction xs) auto

lemma butlast_split_on_append:
  "sep \<notin> set xs \<Longrightarrow>
   butlast (split_on sep (xs @ sep # ys)) = xs # butlast (split_on sep ys)"
  by (simp add: split_on_append split_on_nonempty)

lemma split_on_three:
  "sep \<notin> set k \<Longrightarrow> sep \<notin> set t \<Longrightarrow> sep \<notin> set v \<Longrightarrow>
   split_on sep (k @ [sep] @ t @ [sep] @ v) = [k, t, v]"
  by (simp add: split_on_append split_on_no_sep)

section \<open>Dictionaries built by comprehension\<close>

lemma dict_comprehension_Inr:
  "dict_comprehension f d xs = Inr d' \<longleftrightarrow>
   (\<exists>ps. map f xs = map Inr ps \<and> d' = fold (\<lambda>(k, v). AList.update k v) ps d)"
proof (induction xs arbitrary: d)
  case Nil
  then show ?case by auto
next
  case (Cons x xs)
  show ?case
  proof (cases "f x")
    case (Inl e)
    then show ?thesis by (auto simp: map_eq_Cons_conv)
  next
    case (Inr p)
    obtain k v where p: "p = (k, v)" by (cases p)
    show ?thesis
    proof
      assume "dict_comprehension f d (x # xs) = Inr d'"
      with Inr p Cons.IH [of "AList.update k v d"]
      obtain ps where "map f xs = map Inr ps" "d' = fold (\<lambda>(k, v). AList.update k v) ps (AList.update k v d)"
        by auto
      with Inr p have "map f (x # xs) = map Inr ((k, v) # ps) \<and>
          d' = fold (\<lambda>(k, v). AList.update k v) ((k, v) # ps) d"
        by simp
      then show "\<exists>ps. map f (x # xs) = map Inr ps \<and> d' = fold (\<lambda>(k, v). AList.update k v) ps d"
        by blast
    next
      assume "\<exists>ps. map f (x # xs) = map Inr ps \<and> d' = fold (\<lambda>(k, v). AList.update k v) ps d"
      then obtain ps where ps: "map f (x # xs) = map Inr ps"
        "d' = fold (\<lambda>(k, v). AList.update k v) ps d" by blast
      from ps(1) Inr p obtain qs where q: "ps = (k, v) # qs" "map f xs = map Inr qs"
        by (cases ps) auto
      with ps(2) have "d' = fold (\<lambda>(k, v). AList.update k v) qs (AList.update k v d)" by simp
      with q(2) Cons.IH [of "AList.update k v d"] Inr p
      show "dict_comprehension f d (x # xs) = Inr d'" by auto
    qed
  qed
qed

lemma map_of_fold_update_other:
  "key \<notin> fst ` set ps \<Longrightarrow>
   map_of (fold (\<lambda>(k, v). AList.update k v) ps d) key = map_of d key"
  by (induction ps arbitrary: d) (auto simp: update_conv')

lemma dom_fold_update:
  "dom (map_of (fold (\<lambda>(k, v). AList.update k v) ps d)) = dom (map_of d) \<union> fst ` set ps"
  by (induction ps arbitrary: d) (auto simp: update_conv')

text \<open>
  A dictionary comprehension over a new first entry and the old entries: when the old
  entries alone give a dictionary without the new key, the new key has the new value.
\<close>

lemma dict_comprehension_new_key:
  assumes "f x = Inr (key, v)"
    and "dict_comprehension f [] xs = Inr m" and "map_of m key = None"
  shows "\<exists>d. dict_comprehension f [] (x # xs) = Inr d \<and> map_of d key = Some v"
proof -
  from assms(2) obtain ps where ps: "map f xs = map Inr ps"
    "m = fold (\<lambda>(k, v). AList.update k v) ps []"
    by (auto simp: dict_comprehension_Inr)
  from assms(3) ps(2) have "key \<notin> dom (map_of (fold (\<lambda>(k, v). AList.update k v) ps []))"
    by (simp add: domIff)
  then have nk: "key \<notin> fst ` set ps" by (simp add: dom_fold_update)
  let ?d = "fold (\<lambda>(k, v). AList.update k v) ps [(key, v)]"
  from ps(1) have "dict_comprehension f [(key, v)] xs = Inr ?d"
    by (auto simp: dict_comprehension_Inr)
  with assms(1) have "dict_comprehension f [] (x # xs) = Inr ?d" by simp
  moreover from nk have "map_of ?d key = Some v"
    by (simp add: map_of_fold_update_other)
  ultimately show ?thesis by blast
qed

section \<open>Integers written and read back\<close>

lemma str_nat_digits: "\<forall>c \<in> set (str_nat n). ascii_digit c"
proof (induction n rule: str_nat.induct)
  case (1 n)
  show ?case
  proof (cases "n < 10")
    case True
    then show ?thesis by (subst str_nat.simps) (simp add: ascii_digit_def)
  next
    case False
    have "n mod 10 < 10" by simp
    then have "ascii_digit (48 + n mod 10)" unfolding ascii_digit_def by linarith
    with False "1.IH" show ?thesis by (subst str_nat.simps) simp
  qed
qed

lemma str_nat_nonempty: "str_nat n \<noteq> []"
  by (subst str_nat.simps) simp

lemma parse_digits_all_digits:
  "\<forall>c \<in> set cs. ascii_digit c \<Longrightarrow>
   parse_digits acc cs = Some (foldl (\<lambda>a c. 10 * a + (c - 48)) acc cs)"
  by (induction acc cs rule: parse_digits.induct) simp_all

lemma foldl_str_nat: "foldl (\<lambda>a c. 10 * a + (c - 48)) 0 (str_nat n) = n"
proof (induction n rule: str_nat.induct)
  case (1 n)
  show ?case
  proof (cases "n < 10")
    case True
    then show ?thesis by (subst str_nat.simps) simp
  next
    case False
    with "1.IH" show ?thesis by (subst str_nat.simps) simp
  qed
qed

lemma parse_unsigned_str_nat: "parse_unsigned (str_nat n) = Some n"
proof -
  obtain c cs where cs: "str_nat n = c # cs"
    using str_nat_nonempty [of n] by (cases "str_nat n") auto
  with str_nat_digits [of n] have d: "ascii_digit c" "\<forall>x \<in> set cs. ascii_digit x" by auto
  have "foldl (\<lambda>a c. 10 * a + (c - 48)) (c - 48) cs = n"
    using foldl_str_nat [of n] by (simp add: cs)
  with d show ?thesis by (simp add: parse_unsigned_def cs parse_digits_all_digits)
qed

lemma dropWhile_first: "xs \<noteq> [] \<Longrightarrow> \<not> P (hd xs) \<Longrightarrow> dropWhile P xs = xs"
  by (cases xs) auto

lemma strip_unchanged:
  assumes "xs \<noteq> []" and "\<not> P (hd xs)" and "\<not> P (last xs)"
  shows "rev (dropWhile P (rev (dropWhile P xs))) = xs"
proof -
  from assms have "dropWhile P xs = xs" by (simp add: dropWhile_first)
  moreover from assms have "dropWhile P (rev xs) = rev xs"
    by (intro dropWhile_first) (simp_all add: hd_rev)
  ultimately show ?thesis by simp
qed

text \<open>
  \<open>str(i)\<close> is read back as \<open>i\<close> by any \<open>int()\<close> whose whitespace holds neither a
  digit nor the minus sign.
\<close>

lemma parse_int_str_int:
  assumes "\<And>c. ascii_digit c \<Longrightarrow> \<not> space c" and "\<not> space (uchr CHR ''-'')"
  shows "parse_int space (str_int i) = Some i"
proof -
  have dig: "ascii_digit (hd (str_nat n))" "ascii_digit (last (str_nat n))" for n
    using str_nat_digits [of n] str_nat_nonempty [of n] by (simp_all add: hd_in_set)
  show ?thesis
  proof (cases "i < 0")
    case True
    let ?s = "uchr CHR ''-'' # str_nat (nat (- i))"
    have "rev (dropWhile space (rev (dropWhile space ?s))) = ?s"
      using assms dig [of "nat (- i)"] str_nat_nonempty [of "nat (- i)"]
      by (intro strip_unchanged) simp_all
    with True show ?thesis
      by (simp add: parse_int_def str_int_def parse_unsigned_str_nat)
  next
    case False
    let ?s = "str_nat (nat i)"
    obtain c cs where cs: "?s = c # cs"
      using str_nat_nonempty [of "nat i"] by (cases ?s) auto
    with dig [of "nat i"] have c: "ascii_digit c" by simp
    then have ne: "c \<noteq> uchr CHR ''-''" "c \<noteq> uchr CHR ''+''"
      by (auto simp: ascii_digit_def uchr_def)
    have "rev (dropWhile space (rev (dropWhile space ?s))) = ?s"
      using assms dig [of "nat i"] str_nat_nonempty [of "nat i"]
      by (intro strip_unchanged) simp_all
    with False ne cs parse_unsigned_str_nat [of "nat i"] show ?thesis
      by (simp add: parse_int_def str_int_def)
  qed
qed

lemma str_int_chars: "c \<in> set (str_int i) \<Longrightarrow> ascii_digit c \<or> c = uchr CHR ''-''"
  using str_nat_digits by (auto simp: str_int_def split: if_splits)

lemma str_int_no_separator:
  "uchr CHR '':'' \<notin> set (str_int i)" "uchr CHR '';'' \<notin> set (str_int i)"
  using str_int_chars [of "uchr CHR '':''" i] str_int_chars [of "uchr CHR '';''" i]
  by (auto simp: ascii_digit_def uchr_def)

lemma str_int_ascii: "c \<in> set (str_int i) \<Longrightarrow> c < 128"
  using str_int_chars [of c i] by (auto simp: ascii_digit_def uchr_def)

text \<open>The text of \<open>str(i)\<close> is ASCII, so no Unicode table is consulted for it.\<close>

lemma int_of_str_str_int: "int_of_str fo (str_int i) = Some i"
proof -
  have "list_all (\<lambda>c. c < 128) (str_int i)"
    using str_int_ascii [of _ i] by (simp add: list_all_iff)
  then have "ascii_form fo (str_int i) = str_int i" by (simp add: ascii_form_def)
  moreover have "parse_int ascii_space (str_int i) = Some i"
    by (rule parse_int_str_int) (auto simp: ascii_digit_def ascii_space_def uchr_def)
  ultimately show ?thesis by (simp add: int_of_str_def)
qed

section \<open>UTF-8 written and read back\<close>

lemma unat_of_nat_byte: "n < 256 \<Longrightarrow> unat (of_nat n :: 8 word) = n"
  by (simp add: unat_of_nat)

text \<open>
  The bytes of one encoded character, by their values: a lead byte that tells the
  length, then continuation bytes of six bits each.
\<close>

lemma utf8_char_cases:
  assumes "utf8_char c = Some bs"
  obtains (one) "c < 0x80" "bs = [of_nat c]"
  | (two) b0 b1 where "0x80 \<le> c" "c < 0x800" "bs = [b0, b1]"
      "unat b0 = 0xC0 + c div 64" "unat b1 = 0x80 + c mod 64"
  | (three) b0 b1 b2 where "0x800 \<le> c" "c < 0x10000" "\<not> (0xD800 \<le> c \<and> c < 0xE000)"
      "bs = [b0, b1, b2]" "unat b0 = 0xE0 + c div 4096" "unat b1 = 0x80 + c div 64 mod 64"
      "unat b2 = 0x80 + c mod 64"
  | (four) b0 b1 b2 b3 where "0x10000 \<le> c" "c < 0x110000" "bs = [b0, b1, b2, b3]"
      "unat b0 = 0xF0 + c div 262144" "unat b1 = 0x80 + c div 4096 mod 64"
      "unat b2 = 0x80 + c div 64 mod 64" "unat b3 = 0x80 + c mod 64"
proof -
  have m: "c mod 64 < 64" "c div 64 mod 64 < 64" "c div 4096 mod 64 < 64" by simp_all
  consider (1) "c < 0x80" | (2) "0x80 \<le> c" "c < 0x800"
    | (3) "0x800 \<le> c" "c < 0x10000" "\<not> (0xD800 \<le> c \<and> c < 0xE000)"
    | (4) "0x10000 \<le> c" "c < 0x110000"
    using assms by (auto simp: utf8_char_def split: if_splits)
  then show thesis
  proof cases
    case 1
    with assms have "bs = [of_nat c]" by (simp add: utf8_char_def)
    with 1 one show thesis by blast
  next
    case 2
    define b0 :: "8 word" where "b0 = of_nat (0xC0 + c div 64)"
    define b1 :: "8 word" where "b1 = of_nat (0x80 + c mod 64)"
    from 2 assms have bs: "bs = [b0, b1]" by (simp add: utf8_char_def b0_def b1_def)
    from 2 have "c div 64 < 32" by simp
    then have u0: "unat b0 = 0xC0 + c div 64"
      unfolding b0_def by (intro unat_of_nat_byte) simp
    from m have u1: "unat b1 = 0x80 + c mod 64"
      unfolding b1_def by (intro unat_of_nat_byte) simp
    from two [OF 2 bs u0 u1] show thesis .
  next
    case 3
    define b0 :: "8 word" where "b0 = of_nat (0xE0 + c div 4096)"
    define b1 :: "8 word" where "b1 = of_nat (0x80 + c div 64 mod 64)"
    define b2 :: "8 word" where "b2 = of_nat (0x80 + c mod 64)"
    from 3 assms have bs: "bs = [b0, b1, b2]"
      by (auto simp: utf8_char_def b0_def b1_def b2_def split: if_splits)
    from 3 have "c div 4096 < 16" by simp
    then have u0: "unat b0 = 0xE0 + c div 4096"
      unfolding b0_def by (intro unat_of_nat_byte) simp
    from m have u1: "unat b1 = 0x80 + c div 64 mod 64"
      unfolding b1_def by (intro unat_of_nat_byte) simp
    from m have u2: "unat b2 = 0x80 + c mod 64"
      unfolding b2_def by (intro unat_of_nat_byte) simp
    from three [OF 3 bs u0 u1 u2] show thesis .
  next
    case 4
    define b0 :: "8 word" where "b0 = of_nat (0xF0 + c div 262144)"
    define b1 :: "8 word" where "b1 = of_nat (0x80 + c div 4096 mod 64)"
    define b2 :: "8 word" where "b2 = of_nat (0x80 + c div 64 mod 64)"
    define b3 :: "8 word" where "b3 = of_nat (0x80 + c mod 64)"
    from 4 assms have bs: "bs = [b0, b1, b2, b3]"
      by (simp add: utf8_char_def b0_def b1_def b2_def b3_def)
    from 4 have "c div 262144 < 5" by simp
    then have u0: "unat b0 = 0xF0 + c div 262144"
      unfolding b0_def by (intro unat_of_nat_byte) simp
    from m have u1: "unat b1 = 0x80 + c div 4096 mod 64"
      unfolding b1_def by (intro unat_of_nat_byte) simp
    from m have u2: "unat b2 = 0x80 + c div 64 mod 64"
      unfolding b2_def by (intro unat_of_nat_byte) simp
    from m have u3: "unat b3 = 0x80 + c mod 64"
      unfolding b3_def by (intro unat_of_nat_byte) simp
    from four [OF 4 bs u0 u1 u2 u3] show thesis .
  qed
qed

lemma recombine2: "x = 64 * y + z \<Longrightarrow> c = 64 * x + m \<Longrightarrow> y * 4096 + z * 64 + m = c" for c :: nat
  by simp
lemma recombine3: "w = 64 * v + u \<Longrightarrow> x = 64 * w + z \<Longrightarrow> c = 64 * x + m \<Longrightarrow>
  v * 262144 + u * 4096 + z * 64 + m = c" for c :: nat
  by simp
lemma div_64_64: "c div 64 div 64 = c div 4096" "c div 64 div 64 div 64 = c div 262144" for c :: nat
  by (simp_all add: div_mult2_eq [symmetric])
lemma utf8_recombine3: "c div 4096 * 4096 + c div 64 mod 64 * 64 + c mod 64 = c" for c :: nat
proof -
  have "c div 64 = 64 * (c div 64 div 64) + c div 64 mod 64" by (rule mult_div_mod_eq [symmetric])
  then have a: "c div 64 = 64 * (c div 4096) + c div 64 mod 64" by (simp only: div_64_64)
  have b: "c = 64 * (c div 64) + c mod 64" by (rule mult_div_mod_eq [symmetric])
  from recombine2 [OF a b] show ?thesis .
qed
lemma utf8_recombine4: "c div 262144 * 262144 + c div 4096 mod 64 * 4096 + c div 64 mod 64 * 64 + c mod 64 = c" for c :: nat
proof -
  have "c div 4096 = 64 * (c div 4096 div 64) + c div 4096 mod 64" by (rule mult_div_mod_eq [symmetric])
  moreover have "c div 4096 div 64 = c div 262144" by (simp add: div_mult2_eq [symmetric])
  ultimately have a0: "c div 4096 = 64 * (c div 262144) + c div 4096 mod 64" by (simp only:)
  have "c div 64 = 64 * (c div 64 div 64) + c div 64 mod 64" by (rule mult_div_mod_eq [symmetric])
  then have a: "c div 64 = 64 * (c div 4096) + c div 64 mod 64" by (simp only: div_64_64)
  have b: "c = 64 * (c div 64) + c mod 64" by (rule mult_div_mod_eq [symmetric])
  from recombine3 [OF a0 a b] show ?thesis .
qed

lemma utf8_decode_char:
  assumes "utf8_char c = Some bs"
  shows "utf8_decode (bs @ rest) = map_option ((#) c) (utf8_decode rest)"
  using assms
proof (cases rule: utf8_char_cases)
  case one
  then have "unat (of_nat c :: 8 word) = c" by (simp add: unat_of_nat_byte)
  with one show ?thesis by simp
next
  case (two b0 b1)
  have m: "c mod 64 < 64" by simp
  from two(1,2) have d: "2 \<le> c div 64" "c div 64 < 32" by simp_all
  have c: "c div 64 * 64 + c mod 64 = c" by simp
  from d m show ?thesis by (simp add: two(3,4,5) is_cont_def c)
next
  case (three b0 b1 b2)
  have m: "c mod 64 < 64" "c div 64 mod 64 < 64" by simp_all
  from three(1,2) have d: "c div 4096 < 16" by simp
  note c = utf8_recombine3 [of c]
  from d m three(1,2,3) show ?thesis by (simp add: three(4,5,6,7) is_cont_def c)
next
  case (four b0 b1 b2 b3)
  have m: "c mod 64 < 64" "c div 64 mod 64 < 64" "c div 4096 mod 64 < 64" by simp_all
  from four(1,2) have d: "c div 262144 < 5" by simp
  note c = utf8_recombine4 [of c]
  from d m four(1,2) show ?thesis by (simp add: four(3,4,5,6,7) is_cont_def c)
qed

lemma utf8_decode_encode: "utf8_encode s = Some b \<Longrightarrow> utf8_decode b = Some s"
proof (induction s arbitrary: b)
  case Nil
  then show ?case by simp
next
  case (Cons c cs)
  then obtain bs rest where e: "utf8_char c = Some bs" "utf8_encode cs = Some rest" "b = bs @ rest"
    by (auto split: option.splits)
  from Cons.IH [OF e(2)] utf8_decode_char [OF e(1), of rest] e(3) show ?case by simp
qed

text \<open>An ASCII character is in the encoding only where it is in the text.\<close>

lemma utf8_char_ascii:
  assumes "utf8_char c = Some bs" and "a < 128" and "of_nat a \<in> set bs"
  shows "c = a"
proof -
  from assms(2) have a: "unat (of_nat a :: 8 word) = a" by (simp add: unat_of_nat_byte)
  have high: False if "b \<in> set bs" "128 \<le> unat b" "b = of_nat a" for b :: "8 word"
    using that a assms(2) by simp
  from assms(1) show ?thesis
  proof (cases rule: utf8_char_cases)
    case one
    with assms(3) have "unat (of_nat c :: 8 word) = unat (of_nat a :: 8 word)" by simp
    with one(1) a show ?thesis by (simp add: unat_of_nat_byte)
  next
    case (two b0 b1)
    with assms(3) high [of b0] high [of b1] show ?thesis by auto
  next
    case (three b0 b1 b2)
    with assms(3) high [of b0] high [of b1] high [of b2] show ?thesis by auto
  next
    case (four b0 b1 b2 b3)
    with assms(3) high [of b0] high [of b1] high [of b2] high [of b3] show ?thesis by auto
  qed
qed

lemma utf8_encode_ascii:
  "utf8_encode s = Some b \<Longrightarrow> a < 128 \<Longrightarrow> a \<notin> set s \<Longrightarrow> of_nat a \<notin> set b"
proof (induction s arbitrary: b)
  case Nil
  then show ?case by simp
next
  case (Cons c cs)
  then obtain bs rest where e: "utf8_char c = Some bs" "utf8_encode cs = Some rest" "b = bs @ rest"
    by (auto split: option.splits)
  from Cons.prems have "a \<noteq> c" "a \<notin> set cs" by auto
  with utf8_char_ascii [OF e(1) Cons.prems(2)] Cons.IH [OF e(2) Cons.prems(2)] e(3)
  show ?case by auto
qed

lemma utf8_encode_no_separator:
  assumes "utf8_encode s = Some b"
  shows "uchr CHR '':'' \<notin> set s \<Longrightarrow> bchr CHR '':'' \<notin> set b"
    and "uchr CHR '';'' \<notin> set s \<Longrightarrow> bchr CHR '';'' \<notin> set b"
  using utf8_encode_ascii [OF assms, of 58] utf8_encode_ascii [OF assms, of 59]
  by (simp_all add: uchr_def bchr_def)

text \<open>ASCII text is encoded character by character.\<close>

lemma utf8_encode_ascii_text:
  "\<forall>c \<in> set s. c < 128 \<Longrightarrow> utf8_encode s = Some (map of_nat s)"
  by (induction s) (simp_all add: utf8_char_def)

lemma unat_ascii_text:
  "\<forall>c \<in> set s. c < 128 \<Longrightarrow> map unat (map of_nat s :: 8 word list) = s"
  by (induction s) (simp_all add: unat_of_nat_byte)

lemma int_of_bytes_str_int:
  assumes "utf8_encode (str_int i) = Some b"
  shows "int_of_bytes b = Some i"
proof -
  have a: "\<forall>c \<in> set (str_int i). c < 128" using str_int_ascii by blast
  from assms utf8_encode_ascii_text [OF a] have b: "b = map of_nat (str_int i)" by simp
  have "parse_int ascii_space (str_int i) = Some i"
    by (rule parse_int_str_int) (auto simp: ascii_digit_def ascii_space_def uchr_def)
  then show ?thesis unfolding int_of_bytes_def b unat_ascii_text [OF a] .
qed

lemma utf8_encode_str_int: "\<exists>b. utf8_encode (str_int i) = Some b"
  using utf8_encode_ascii_text [of "str_int i"] str_int_ascii by blast

section \<open>A tag set and read back\<close>

lemma ustr_single: "ustr [c] = [uchr c]" and bstr_single: "bstr [c] = [bchr c]"
  by (simp_all add: ustr_def uchr_def bstr_def bchr_def)

lemma type_char_no_separator:
  "t \<in> {ustr ''Z'', ustr ''i'', ustr ''f''} \<Longrightarrow>
     uchr CHR '':'' \<notin> set t \<and> uchr CHR '';'' \<notin> set t"
  "b \<in> {bstr ''Z'', bstr ''i'', bstr ''f''} \<Longrightarrow>
     bchr CHR '':'' \<notin> set b \<and> bchr CHR '';'' \<notin> set b"
  by (auto simp: ustr_def uchr_def bstr_def bchr_def)

text \<open>
  The textual variant: a tag whose key, type character and value text hold no
  separator is the first segment of the new name, and is decoded to its key and to
  whatever the type's conversion makes of the value text.
\<close>

lemma StrRecord_set_then_get:
  assumes k: "kind r = StrRecord" and old: "get_tags fo r = Inr m" and new: "map_of m key = None"
    and key: "uchr CHR '':'' \<notin> set key" "uchr CHR '';'' \<notin> set key"
    and parts: "StrRecord_tag_parts fo v = Inr (t, s)"
    and t: "t \<in> {ustr ''Z'', ustr ''i'', ustr ''f''}"
    and s: "uchr CHR '':'' \<notin> set s" "uchr CHR '';'' \<notin> set s"
    and conv: "StrRecord_convert fo t s = Inr v'"
  shows "\<exists>r'. set_tag fo r key v = Inr r' \<and> get_tag fo r' key = Inr v'"
proof -
  from k old obtain nm where nm: "name r = Text nm"
    by (cases "name r") (auto simp: get_tags_def StrRecord_get_tags_def)
  let ?segs = "butlast (split_on (uchr CHR '';'') (drop 1 nm))"
  let ?tag = "key @ [uchr CHR '':''] @ t @ [uchr CHR '':''] @ s"
  let ?r' = "r\<lparr>name := Text (ustr ''@'' @ ?tag @ ustr '';'' @ drop 1 nm)\<rparr>"
  from k old nm have o: "dict_comprehension (StrRecord_decode_segment fo) [] ?segs = Inr m"
    by (simp add: get_tags_def StrRecord_get_tags_def)
  from type_char_no_separator(1) [OF t] have tt: "uchr CHR '':'' \<notin> set t" "uchr CHR '';'' \<notin> set t"
    by simp_all
  from parts have mk: "StrRecord_mktag fo key v = Inr ?tag"
    by (simp add: StrRecord_mktag_def ustr_single)
  with k nm have set: "set_tag fo r key v = Inr ?r'"
    by (simp add: set_tag_def StrRecord_set_tag_def set_name_def)
  from key tt s have "uchr CHR '';'' \<notin> set ?tag" by (auto simp: uchr_def)
  from butlast_split_on_append [OF this, of "drop 1 nm"]
  have segs: "butlast (split_on (uchr CHR '';'') (drop 1 (ustr ''@'' @ ?tag @ ustr '';'' @ drop 1 nm)))
      = ?tag # ?segs"
    by (simp add: ustr_single)
  from split_on_three [OF key(1) tt(1) s(1)] conv
  have dec: "StrRecord_decode_segment fo ?tag = Inr (key, v')"
    by (simp add: StrRecord_decode_segment_def)
  from dict_comprehension_new_key [OF dec o new] obtain d
    where d: "dict_comprehension (StrRecord_decode_segment fo) [] (?tag # ?segs) = Inr d"
      "map_of d key = Some v'" by blast
  from k d segs have "get_tag fo ?r' key = Inr v'"
    by (simp add: get_tag_def StrRecord_get_tag_def StrRecord_get_tags_def lookup_tag_def)
  with set show ?thesis by blast
qed

text \<open>The binary variant, with the key encoded on the way in and decoded on the way out.\<close>

lemma BytesRecord_set_then_get:
  assumes k: "kind r = BytesRecord" and old: "get_tags fo r = Inr m" and new: "map_of m key = None"
    and key: "uchr CHR '':'' \<notin> set key" "uchr CHR '';'' \<notin> set key"
    and kb: "utf8_encode key = Some kb"
    and parts: "BytesRecord_tag_parts fo v = Inr (t, s)"
    and t: "t \<in> {bstr ''Z'', bstr ''i'', bstr ''f''}"
    and s: "bchr CHR '':'' \<notin> set s" "bchr CHR '';'' \<notin> set s"
    and conv: "BytesRecord_convert fo t s = Inr v'"
  shows "\<exists>r'. set_tag fo r key v = Inr r' \<and> get_tag fo r' key = Inr v'"
proof -
  from k old obtain nm where nm: "name r = Bytes nm"
    by (cases "name r") (auto simp: get_tags_def BytesRecord_get_tags_def)
  let ?segs = "butlast (split_on (bchr CHR '';'') (drop 1 nm))"
  let ?tag = "kb @ [bchr CHR '':''] @ t @ [bchr CHR '':''] @ s"
  let ?r' = "r\<lparr>name := Bytes (bstr ''@'' @ ?tag @ bstr '';'' @ drop 1 nm)\<rparr>"
  from k old nm have o: "dict_comprehension (BytesRecord_decode_segment fo) [] ?segs = Inr m"
    by (simp add: get_tags_def BytesRecord_get_tags_def)
  from type_char_no_separator(2) [OF t] have tt: "bchr CHR '':'' \<notin> set t" "bchr CHR '';'' \<notin> set t"
    by simp_all
  from utf8_encode_no_separator [OF kb] key
  have kk: "bchr CHR '':'' \<notin> set kb" "bchr CHR '';'' \<notin> set kb" by simp_all
  from parts kb have mk: "BytesRecord_mktag fo key v = Inr ?tag"
    by (simp add: BytesRecord_mktag_def encode_or_raise_def bstr_single)
  with k nm have set: "set_tag fo r key v = Inr ?r'"
    by (simp add: set_tag_def BytesRecord_set_tag_def set_name_def)
  from kk tt s have "bchr CHR '';'' \<notin> set ?tag" by (auto simp: bchr_def)
  from butlast_split_on_append [OF this, of "drop 1 nm"]
  have segs: "butlast (split_on (bchr CHR '';'') (drop 1 (bstr ''@'' @ ?tag @ bstr '';'' @ drop 1 nm)))
      = ?tag # ?segs"
    by (simp add: bstr_single)
  from split_on_three [OF kk(1) tt(1) s(1)] conv utf8_decode_encode [OF kb]
  have dec: "BytesRecord_decode_segment fo ?tag = Inr (key, v')"
    by (simp add: BytesRecord_decode_segment_def)
  from dict_comprehension_new_key [OF dec o new] obtain d
    where d: "dict_comprehension (BytesRecord_decode_segment fo) [] (?tag # ?segs) = Inr d"
      "map_of d key = Some v'" by blast
  from k d segs have "get_tag fo ?r' key = Inr v'"
    by (simp add: get_tag_def BytesRecord_get_tag_def BytesRecord_get_tags_def lookup_tag_def)
  with set show ?thesis by blast
qed

text \<open>
  C1, as stated: for every record, key and supported value, \<open>get_tag\<close> after
  \<open>set_tag\<close> returns the value. It does not for every record, key and value.
  \<open>set_tag\<close> prepends the new tag and \<open>get_tags\<close> lets a later tag with the same
  key win, so a key that is already a tag of the record keeps its old value: after
  \<open>set_tag('k', 2)\<close> on the name \<open>@k:i:1;orig\<close>, \<open>get_tag('k')\<close> is \<open>1\<close>. The
  value and the key are written as they are, so a separator in either breaks the
  decoding: the values \<open>'a:b'\<close> and \<open>'a;b'\<close> and the key \<open>'a:b'\<close> make \<open>get_tag\<close>
  raise \<open>ValueError\<close>. So does an old name that does not decode, such as \<open>@bad;orig\<close>.
\<close>

theorem round_trip_counterexample:
  "set_tag zero_float_ops (str_record ''@k:i:1;orig'') (ustr ''k'') (PInt 2)
     = Inr (str_record ''@k:i:2;k:i:1;orig'') \<and>
   get_tag zero_float_ops (str_record ''@k:i:2;k:i:1;orig'') (ustr ''k'') = Inr (PInt 1) \<and>
   set_tag zero_float_ops (str_record ''@orig'') (ustr ''k'') (PStr (ustr ''a:b''))
     = Inr (str_record ''@k:Z:a:b;orig'') \<and>
   get_tag zero_float_ops (str_record ''@k:Z:a:b;orig'') (ustr ''k'') = Inl ValueError \<and>
   set_tag zero_float_ops (str_record ''@orig'') (ustr ''k'') (PStr (ustr ''a;b''))
     = Inr (str_record ''@k:Z:a;b;orig'') \<and>
   get_tag zero_float_ops (str_record ''@k:Z:a;b;orig'') (ustr ''k'') = Inl ValueError \<and>
   set_tag zero_float_ops (str_record ''@orig'') (ustr ''a:b'') (PInt 2)
     = Inr (str_record ''@a:b:i:2;orig'') \<and>
   get_tag zero_float_ops (str_record ''@a:b:i:2;orig'') (ustr ''a:b'') = Inl ValueError \<and>
   set_tag zero_float_ops (str_record ''@bad;orig'') (ustr ''k'') (PInt 2)
     = Inr (str_record ''@k:i:2;bad;orig'') \<and>
   get_tag zero_float_ops (str_record ''@k:i:2;bad;orig'') (ustr ''k'') = Inl ValueError"
  by code_simp

text \<open>
  C1, amended. Take a record of either variant whose name decodes (\<open>get_tags\<close>
  returns a mapping), and a key that is not yet a tag of the record, holds neither
  \<open>:\<close> nor \<open>;\<close> and, for the binary variant, can be encoded. Then \<open>set_tag\<close>
  followed by \<open>get_tag\<close> of that key returns the value, of its kind:
  \<^item> an integer comes back as that integer, in both variants;
  \<^item> a text free of \<open>:\<close> and \<open>;\<close> comes back as that text in the textual variant, and
    as its encoding, of the \<open>bytes\<close> kind, in the binary variant;
  \<^item> bytes free of \<open>:\<close> and \<open>;\<close> come back as those bytes in the binary variant;
  \<^item> a float comes back as that float in either variant, provided its string form
    holds no separator and is read back as the same float by \<open>float()\<close>.
  A \<open>bytes\<close> value in the textual variant is left out.
\<close>

theorem set_tag_get_tag_round_trip:
  assumes "get_tags fo r = Inr m" and "map_of m key = None"
    and "uchr CHR '':'' \<notin> set key" and "uchr CHR '';'' \<notin> set key"
    and "kind r = BytesRecord \<longrightarrow> utf8_encode key \<noteq> None"
  shows
    "(\<exists>r'. set_tag fo r key (PInt i) = Inr r' \<and> get_tag fo r' key = Inr (PInt i)) \<and>
     (kind r = StrRecord \<and> uchr CHR '':'' \<notin> set t \<and> uchr CHR '';'' \<notin> set t \<longrightarrow>
        (\<exists>r'. set_tag fo r key (PStr t) = Inr r' \<and> get_tag fo r' key = Inr (PStr t))) \<and>
     (kind r = StrRecord \<and> float_of_str fo (str_of_float fo x) = Some x \<and>
      uchr CHR '':'' \<notin> set (str_of_float fo x) \<and> uchr CHR '';'' \<notin> set (str_of_float fo x) \<longrightarrow>
        (\<exists>r'. set_tag fo r key (PFloat x) = Inr r' \<and> get_tag fo r' key = Inr (PFloat x))) \<and>
     (kind r = BytesRecord \<and> bchr CHR '':'' \<notin> set b \<and> bchr CHR '';'' \<notin> set b \<longrightarrow>
        (\<exists>r'. set_tag fo r key (PBytes b) = Inr r' \<and> get_tag fo r' key = Inr (PBytes b))) \<and>
     (kind r = BytesRecord \<and> utf8_encode t = Some tb \<and>
      uchr CHR '':'' \<notin> set t \<and> uchr CHR '';'' \<notin> set t \<longrightarrow>
        (\<exists>r'. set_tag fo r key (PStr t) = Inr r' \<and> get_tag fo r' key = Inr (PBytes tb))) \<and>
     (kind r = BytesRecord \<and> utf8_encode (str_of_float fo x) = Some xb \<and>
      float_of_bytes fo xb = Some x \<and>
      uchr CHR '':'' \<notin> set (str_of_float fo x) \<and> uchr CHR '';'' \<notin> set (str_of_float fo x) \<longrightarrow>
        (\<exists>r'. set_tag fo r key (PFloat x) = Inr r' \<and> get_tag fo r' key = Inr (PFloat x)))"
proof -
  note common = assms(1,2,3,4)
  have ne: "ustr ''Z'' \<noteq> ustr ''i''" "ustr ''f'' \<noteq> ustr ''i''" "ustr ''f'' \<noteq> ustr ''Z''"
    "bstr ''Z'' \<noteq> bstr ''i''" "bstr ''f'' \<noteq> bstr ''i''" "bstr ''f'' \<noteq> bstr ''Z''"
    by (simp_all add: ustr_def bstr_def)
  have int_case: "\<exists>r'. set_tag fo r key (PInt i) = Inr r' \<and> get_tag fo r' key = Inr (PInt i)"
  proof (cases "kind r")
    case StrRecord
    show ?thesis
      by (rule StrRecord_set_then_get [OF StrRecord common, where t = "ustr ''i''" and s = "str_int i"])
         (simp_all add: str_int_no_separator StrRecord_convert_def int_of_str_str_int)
  next
    case BytesRecord
    with assms(5) obtain kb where kb: "utf8_encode key = Some kb" by auto
    from utf8_encode_str_int obtain ib where ib: "utf8_encode (str_int i) = Some ib" by blast
    from utf8_encode_no_separator [OF ib] str_int_no_separator
    have sep: "bchr CHR '':'' \<notin> set ib" "bchr CHR '';'' \<notin> set ib" by simp_all
    show ?thesis
      by (rule BytesRecord_set_then_get [OF BytesRecord common kb, where t = "bstr ''i''" and s = ib])
         (simp_all add: ib sep encode_or_raise_def BytesRecord_convert_def
            int_of_bytes_str_int [OF ib])
  qed
  have str_text: "\<exists>r'. set_tag fo r key (PStr t) = Inr r' \<and> get_tag fo r' key = Inr (PStr t)"
    if "kind r = StrRecord" "uchr CHR '':'' \<notin> set t" "uchr CHR '';'' \<notin> set t"
    by (rule StrRecord_set_then_get [OF that(1) common, where t = "ustr ''Z''" and s = t])
       (simp_all add: that ne StrRecord_convert_def)
  have str_float: "\<exists>r'. set_tag fo r key (PFloat x) = Inr r' \<and> get_tag fo r' key = Inr (PFloat x)"
    if "kind r = StrRecord" "float_of_str fo (str_of_float fo x) = Some x"
      "uchr CHR '':'' \<notin> set (str_of_float fo x)" "uchr CHR '';'' \<notin> set (str_of_float fo x)"
    by (rule StrRecord_set_then_get [OF that(1) common, where t = "ustr ''f''"
          and s = "str_of_float fo x"])
       (simp_all add: that ne StrRecord_convert_def)
  have bytes_bytes: "\<exists>r'. set_tag fo r key (PBytes b) = Inr r' \<and> get_tag fo r' key = Inr (PBytes b)"
    if "kind r = BytesRecord" "bchr CHR '':'' \<notin> set b" "bchr CHR '';'' \<notin> set b"
  proof -
    from that(1) assms(5) obtain kb where kb: "utf8_encode key = Some kb" by auto
    show ?thesis
      by (rule BytesRecord_set_then_get [OF that(1) common kb, where t = "bstr ''Z''" and s = b])
         (simp_all add: that ne BytesRecord_convert_def)
  qed
  have bytes_text: "\<exists>r'. set_tag fo r key (PStr t) = Inr r' \<and> get_tag fo r' key = Inr (PBytes tb)"
    if "kind r = BytesRecord" "utf8_encode t = Some tb"
      "uchr CHR '':'' \<notin> set t" "uchr CHR '';'' \<notin> set t"
  proof -
    from that(1) assms(5) obtain kb where kb: "utf8_encode key = Some kb" by auto
    from utf8_encode_no_separator [OF that(2)] that(3,4)
    have sep: "bchr CHR '':'' \<notin> set tb" "bchr CHR '';'' \<notin> set tb" by simp_all
    show ?thesis
      by (rule BytesRecord_set_then_get [OF that(1) common kb, where t = "bstr ''Z''" and s = tb])
         (simp_all add: that sep ne encode_or_raise_def BytesRecord_convert_def)
  qed
  have bytes_float: "\<exists>r'. set_tag fo r key (PFloat x) = Inr r' \<and> get_tag fo r' key = Inr (PFloat x)"
    if "kind r = BytesRecord" "utf8_encode (str_of_float fo x) = Some xb"
      "float_of_bytes fo xb = Some x"
      "uchr CHR '':'' \<notin> set (str_of_float fo x)" "uchr CHR '';'' \<notin> set (str_of_float fo x)"
  proof -
    from that(1) assms(5) obtain kb where kb: "utf8_encode key = Some kb" by auto
    from utf8_encode_no_separator [OF that(2)] that(4,5)
    have sep: "bchr CHR '':'' \<notin> set xb" "bchr CHR '';'' \<notin> set xb" by simp_all
    show ?thesis
      by (rule BytesRecord_set_then_get [OF that(1) common kb, where t = "bstr ''f''" and s = xb])
         (simp_all add: that sep ne encode_or_raise_def BytesRecord_convert_def)
  qed
  from int_case str_text str_float bytes_bytes bytes_text bytes_float
  show ?thesis by blast
qed

theorem set_tag_get_tag_round_trip_witness:
  "set_tag zero_float_ops (str_record ''@a:i:1;orig'') (ustr ''k'') (PInt 2)
     = Inr (str_record ''@k:i:2;a:i:1;orig'') \<and>
   get_tag zero_float_ops (str_record ''@k:i:2;a:i:1;orig'') (ustr ''k'') = Inr (PInt 2) \<and>
   set_tag zero_float_ops (str_record ''@a:i:1;orig'') (ustr ''k'') (PStr (ustr ''xy''))
     = Inr (str_record ''@k:Z:xy;a:i:1;orig'') \<and>
   get_tag zero_float_ops (str_record ''@k:Z:xy;a:i:1;orig'') (ustr ''k'')
     = Inr (PStr (ustr ''xy'')) \<and>
   set_tag zero_float_ops (str_record ''@a:i:1;orig'') (ustr ''k'') (PFloat ())
     = Inr (str_record ''@k:f:0.0;a:i:1;orig'') \<and>
   get_tag zero_float_ops (str_record ''@k:f:0.0;a:i:1;orig'') (ustr ''k'') = Inr (PFloat ()) \<and>
   set_tag zero_float_ops (bytes_record ''@a:i:1;orig'') (ustr ''k'') (PInt 2)
     = Inr (bytes_record ''@k:i:2;a:i:1;orig'') \<and>
   get_tag zero_float_ops (bytes_record ''@k:i:2;a:i:1;orig'') (ustr ''k'') = Inr (PInt 2) \<and>
   set_tag zero_float_ops (bytes_record ''@a:i:1;orig'') (ustr ''k'') (PBytes (bstr ''xy''))
     = Inr (bytes_record ''@k:Z:xy;a:i:1;orig'') \<and>
   set_tag zero_float_ops (bytes_record ''@a:i:1;orig'') (ustr ''k'') (PStr (ustr ''xy''))
     = Inr (bytes_record ''@k:Z:xy;a:i:1;orig'') \<and>
   get_tag zero_float_ops (bytes_record ''@k:Z:xy;a:i:1;orig'') (ustr ''k'')
     = Inr (PBytes (bstr ''xy'')) \<and>
   set_tag zero_float_ops (bytes_record ''@a:i:1;orig'') (ustr ''k'') (PFloat ())
     = Inr (bytes_record ''@k:f:0.0;a:i:1;orig'') \<and>
   get_tag zero_float_ops (bytes_record ''@k:f:0.0;a:i:1;orig'') (ustr ''k'') = Inr (PFloat ())"
proof -
  let ?s = "str_record ''@a:i:1;orig''" and ?b = "bytes_record ''@a:i:1;orig''"
  let ?k = "ustr ''k''"
  have key: "uchr CHR '':'' \<notin> set ?k" "uchr CHR '';'' \<notin> set ?k"
    and val: "uchr CHR '':'' \<notin> set (ustr ''xy'')" "uchr CHR '';'' \<notin> set (ustr ''xy'')"
    and fl: "uchr CHR '':'' \<notin> set (str_of_float zero_float_ops ())"
      "uchr CHR '';'' \<notin> set (str_of_float zero_float_ops ())"
    by (simp_all add: ustr_def uchr_def zero_float_ops_def)
  have bval: "bchr CHR '':'' \<notin> set (bstr ''xy'')" "bchr CHR '';'' \<notin> set (bstr ''xy'')"
    by (simp_all add: bstr_def bchr_def)
  have enc: "utf8_encode ?k \<noteq> None" "utf8_encode (ustr ''xy'') = Some (bstr ''xy'')"
    "utf8_encode (str_of_float zero_float_ops ()) = Some (bstr ''0.0'')"
    by code_simp+
  have flo: "float_of_str zero_float_ops (str_of_float zero_float_ops ()) = Some ()"
    "float_of_bytes zero_float_ops (bstr ''0.0'') = Some ()"
    by (simp_all add: zero_float_ops_def)
  have s0: "get_tags zero_float_ops ?s = Inr [(ustr ''a'', PInt 1)]"
    and b0: "get_tags zero_float_ops ?b = Inr [(ustr ''a'', PInt 1)]"
    by code_simp+
  have new: "map_of [(ustr ''a'', PInt 1 :: unit pyval)] ?k = None"
    by (simp add: ustr_def)
  have ks: "kind ?s = StrRecord" and kb: "kind ?b = BytesRecord"
    by (simp_all add: str_record_def bytes_record_def)
  have sk: "kind ?s = BytesRecord \<longrightarrow> utf8_encode ?k \<noteq> None"
    and bk: "kind ?b = BytesRecord \<longrightarrow> utf8_encode ?k \<noteq> None"
    using enc(1) by simp_all
  have set_s: "set_tag zero_float_ops ?s ?k (PInt 2) = Inr (str_record ''@k:i:2;a:i:1;orig'')"
    "set_tag zero_float_ops ?s ?k (PStr (ustr ''xy'')) = Inr (str_record ''@k:Z:xy;a:i:1;orig'')"
    "set_tag zero_float_ops ?s ?k (PFloat ()) = Inr (str_record ''@k:f:0.0;a:i:1;orig'')"
    by code_simp+
  have set_b: "set_tag zero_float_ops ?b ?k (PInt 2) = Inr (bytes_record ''@k:i:2;a:i:1;orig'')"
    "set_tag zero_float_ops ?b ?k (PBytes (bstr ''xy'')) = Inr (bytes_record ''@k:Z:xy;a:i:1;orig'')"
    "set_tag zero_float_ops ?b ?k (PStr (ustr ''xy'')) = Inr (bytes_record ''@k:Z:xy;a:i:1;orig'')"
    "set_tag zero_float_ops ?b ?k (PFloat ()) = Inr (bytes_record ''@k:f:0.0;a:i:1;orig'')"
    by code_simp+
  note ts = set_tag_get_tag_round_trip [OF s0 new key sk, where i = 2 and t = "ustr ''xy''"
      and x = "()"]
  note tb = set_tag_get_tag_round_trip [OF b0 new key bk, where i = 2 and t = "ustr ''xy''"
      and tb = "bstr ''xy''" and b = "bstr ''xy''" and x = "()" and xb = "bstr ''0.0''"]
  from ts set_s(1)
  have g1: "get_tag zero_float_ops (str_record ''@k:i:2;a:i:1;orig'') ?k = Inr (PInt 2)"
    by auto
  from ts ks val set_s(2)
  have g2: "get_tag zero_float_ops (str_record ''@k:Z:xy;a:i:1;orig'') ?k = Inr (PStr (ustr ''xy''))"
    by auto
  from ts ks flo(1) fl set_s(3)
  have g3: "get_tag zero_float_ops (str_record ''@k:f:0.0;a:i:1;orig'') ?k = Inr (PFloat ())"
    by auto
  from tb set_b(1)
  have g4: "get_tag zero_float_ops (bytes_record ''@k:i:2;a:i:1;orig'') ?k = Inr (PInt 2)"
    by auto
  from tb kb enc(2) val set_b(3)
  have g5: "get_tag zero_float_ops (bytes_record ''@k:Z:xy;a:i:1;orig'') ?k
      = Inr (PBytes (bstr ''xy''))"
    by auto
  from tb kb enc(3) flo(2) fl set_b(4)
  have g6: "get_tag zero_float_ops (bytes_record ''@k:f:0.0;a:i:1;orig'') ?k = Inr (PFloat ())"
    by auto
  from set_s set_b g1 g2 g3 g4 g5 g6 show ?thesis by blast
qed

end
